theory Spec2Isabelle
  imports Main "HOL-Library.Multiset"
begin

section \<open>Data model\<close>

text \<open>
  The service (\<^verbatim>\<open>app/services.py\<close>, \<^verbatim>\<open>app/routes.py\<close>) is sequential Python that talks
  to four collaborators: object storage (S3), the speech recogniser, the relational
  store (Supabase) and the notification queue (SQS). Every call to a collaborator may
  return or raise; the model takes the answer of each call from an oracle (the records
  \<open>item_env\<close> and \<open>world\<close> below), so that a theorem quantified over the oracles covers
  every behaviour of the collaborators. What the code does to the outside is recorded
  in an explicit \<open>state\<close>: the scratch files that exist, the status column as the service
  has written it, and the ordered trace of requests, sleeps, warnings and published
  events.

  Local operations of the Python runtime are total in the model: logging,
  \<^verbatim>\<open>time.sleep\<close>, \<^verbatim>\<open>json.dumps\<close>, reading the clock, and \<^verbatim>\<open>os.unlink\<close> of a file that
  \<^verbatim>\<open>os.path.exists\<close> has just reported (POSIX semantics). Exceptions are those derived
  from \<^verbatim>\<open>Exception\<close>; \<^verbatim>\<open>logger.info\<close> lines are not part of the trace.
\<close>

datatype exn =
    ClientError           \<comment> \<open>\<^verbatim>\<open>botocore.exceptions.ClientError\<close>\<close>
  | HTTPException nat     \<comment> \<open>\<^verbatim>\<open>fastapi.HTTPException(status_code=...)\<close>\<close>
  | UpsertExhausted       \<comment> \<open>\<^verbatim>\<open>Exception("Supabase upsert failed after 3 attempts")\<close>\<close>
  | OtherError nat        \<comment> \<open>any other \<^verbatim>\<open>Exception\<close> a collaborator raises\<close>

text \<open>
  A transcript is a Python \<^verbatim>\<open>str\<close>: a sequence of Unicode code points. Identifiers
  (paths, device ids, timestamps, status values) are only compared and copied, so they
  are plain strings.
\<close>

type_synonym pytext = "nat list"

record work_item =
  wi_file_path :: string
  wi_device_id :: string
  wi_recorded_at :: string

record audio_row =
  ar_file_path :: string
  ar_device_id :: string
  ar_recorded_at :: string
  ar_local_date :: string
  ar_time_block :: string

record asr_result =
  transcription :: pytext
  no_speech_detected :: "bool option"   \<comment> \<open>\<open>None\<close>: the key is absent\<close>

text \<open>The dictionary \<^verbatim>\<open>data\<close> that is upserted into \<^verbatim>\<open>spot_features\<close>.\<close>

record spot_record =
  sr_device_id :: string
  sr_recorded_at :: string
  sr_local_date :: "string option"
  sr_local_time :: "string option"
  vibe_transcriber_result :: pytext

datatype payload = ProcessedFiles "string list" | ErrorText exn

text \<open>The body of the message sent to the feature-completed queue.\<close>

record terminal_event =
  ev_device_id :: string
  ev_recorded_at :: string
  ev_feature_type :: string
  ev_status :: string
  ev_payload :: payload

text \<open>The \<^verbatim>\<open>logger.warning\<close> and \<^verbatim>\<open>logger.error\<close> lines of the two files.\<close>

datatype log_msg =
    QueryError                \<comment> \<open>error: the device/date query of \<^verbatim>\<open>audio_files\<close> raised\<close>
  | RecordNotFound string     \<comment> \<open>warning: no \<^verbatim>\<open>audio_files\<close> row for the path\<close>
  | LookupError string        \<comment> \<open>error: the lookup of the path raised\<close>
  | QuotaSuspected            \<comment> \<open>warning: the provider's quota may be exhausted\<close>
  | QuotaRetryAfterNine       \<comment> \<open>warning: run again after 09:00 JST\<close>
  | NoLocalRecord             \<comment> \<open>warning: no row for local date and time\<close>
  | LocalLookupError          \<comment> \<open>error: the local date/time lookup raised\<close>
  | UpsertNoData nat          \<comment> \<open>warning: upsert returned no data (attempt)\<close>
  | UpsertPayload             \<comment> \<open>warning: the request payload\<close>
  | UpsertError nat           \<comment> \<open>error: upsert error (attempt)\<close>
  | S3Error string            \<comment> \<open>error: \<^verbatim>\<open>ClientError\<close> for the item\<close>
  | ItemError string          \<comment> \<open>error: any other exception for the item\<close>
  | StatusUpdateFailed        \<comment> \<open>error, in \<^verbatim>\<open>update_status\<close>\<close>
  | AcceptStatusFailed        \<comment> \<open>error, in \<^verbatim>\<open>async_process\<close>\<close>
  | BackgroundFailed          \<comment> \<open>error, in \<^verbatim>\<open>process_in_background\<close>\<close>
  | RouteError                \<comment> \<open>error, in \<^verbatim>\<open>fetch_and_transcribe\<close>\<close>

datatype effect =
    Slept nat                     \<comment> \<open>\<^verbatim>\<open>time.sleep\<close>, in seconds\<close>
  | UpsertReq spot_record         \<comment> \<open>an upsert request sent to \<^verbatim>\<open>spot_features\<close>\<close>
  | CheckReq string string        \<comment> \<open>the read after an upsert without data: device, time\<close>
  | Published terminal_event      \<comment> \<open>\<^verbatim>\<open>sqs.send_message\<close> returned\<close>
  | Logged log_msg

record state =
  scratch :: "string set"
  status_tbl :: "string \<times> string \<times> string \<Rightarrow> string option"
  trace :: "effect list"

definition emit :: "effect \<Rightarrow> state \<Rightarrow> state" where
  "emit e s = s\<lparr>trace := trace s @ [e]\<rparr>"

fun upserts_of :: "effect list \<Rightarrow> spot_record list" where
  "upserts_of [] = []"
| "upserts_of (UpsertReq d # es) = d # upserts_of es"
| "upserts_of (_ # es) = upserts_of es"

fun sleeps_of :: "effect list \<Rightarrow> nat list" where
  "sleeps_of [] = []"
| "sleeps_of (Slept n # es) = n # sleeps_of es"
| "sleeps_of (_ # es) = sleeps_of es"

fun checks_of :: "effect list \<Rightarrow> (string \<times> string) list" where
  "checks_of [] = []"
| "checks_of (CheckReq d r # es) = (d, r) # checks_of es"
| "checks_of (_ # es) = checks_of es"

fun published_of :: "effect list \<Rightarrow> terminal_event list" where
  "published_of [] = []"
| "published_of (Published ev # es) = ev # published_of es"
| "published_of (_ # es) = published_of es"

fun logs_of :: "effect list \<Rightarrow> log_msg list" where
  "logs_of [] = []"
| "logs_of (Logged m # es) = m # logs_of es"
| "logs_of (_ # es) = logs_of es"

section \<open>The collaborators as oracles\<close>

text \<open>
  The answers of the collaborators while one item is processed. \<open>tmp_create\<close> is
  \<^verbatim>\<open>tempfile.NamedTemporaryFile(suffix=".wav", delete=False)\<close>; \<open>asr_transcribe\<close>
  covers opening the downloaded file and the recogniser's call; \<open>jst_hour\<close> is the hour
  of the current instant in \<^verbatim>\<open>Asia/Tokyo\<close>; \<open>upsert_resp k\<close> and \<open>check_resp k\<close> answer
  the upsert and the read issued while \<^verbatim>\<open>retry_count\<close> is \<open>k\<close>, \<open>True\<close> meaning that
  \<^verbatim>\<open>response.data\<close> is non-empty.
\<close>

record item_env =
  tmp_create :: "exn + string"
  s3_download :: "exn option"
  asr_transcribe :: "exn + asr_result"
  jst_hour :: nat
  local_lookup :: "exn + (string option \<times> string option) list"
  upsert_resp :: "nat \<Rightarrow> exn + bool"
  check_resp :: "nat \<Rightarrow> exn + bool"

text \<open>
  The answers during one request. \<open>catalog_lookup i p\<close> answers the lookup of the
  \<open>i\<close>-th path \<open>p\<close>; \<open>item_envs i\<close> are the answers while the \<open>i\<close>-th resolved item is
  processed.
\<close>

record world =
  catalog_query :: "string \<Rightarrow> string \<Rightarrow> string list option \<Rightarrow> exn + audio_row list"
  catalog_lookup :: "nat \<Rightarrow> string \<Rightarrow> exn + (string \<times> string) option"
  item_envs :: "nat \<Rightarrow> item_env"
  status_update_resp :: "string \<Rightarrow> string \<Rightarrow> string \<Rightarrow> string \<Rightarrow> exn + bool"
  status_insert_resp :: "string \<Rightarrow> string \<Rightarrow> string \<Rightarrow> string \<Rightarrow> exn option"
  sqs_send_resp :: "terminal_event \<Rightarrow> exn option"

section \<open>The status update\<close>

text \<open>
  \<^verbatim>\<open>TranscriberService.update_status\<close>: update the row; when the update returns no
  data, insert a row; any exception is logged and raised again.
\<close>

definition set_status :: "string \<Rightarrow> string \<Rightarrow> string \<Rightarrow> string \<Rightarrow> state \<Rightarrow> state" where
  "set_status device_id recorded_at status_field status_value s =
     s\<lparr>status_tbl := (status_tbl s)((device_id, recorded_at, status_field) \<mapsto> status_value)\<rparr>"

definition update_status ::
  "world \<Rightarrow> string \<Rightarrow> string \<Rightarrow> string \<Rightarrow> string \<Rightarrow> state \<Rightarrow> (exn + unit) \<times> state" where
  "update_status w device_id recorded_at status_field status_value s =
     (case status_update_resp w device_id recorded_at status_field status_value of
        Inl e \<Rightarrow> (Inl e, emit (Logged StatusUpdateFailed) s)
      | Inr has_data \<Rightarrow>
          if has_data then
            (Inr (), set_status device_id recorded_at status_field status_value s)
          else
            (case status_insert_resp w device_id recorded_at status_field status_value of
               Some e \<Rightarrow> (Inl e, emit (Logged StatusUpdateFailed) s)
             | None \<Rightarrow>
                 (Inr (), set_status device_id recorded_at status_field status_value s)))"

section \<open>The upsert with retries\<close>

definition max_retries :: nat where
  "max_retries = 3"

text \<open>
  One turn of the \<^verbatim>\<open>while retry_count < max_retries and not upsert_success\<close> loop,
  with \<^verbatim>\<open>retry_count\<close> as it is on entry. The turn ends in one of three ways: the
  upsert counts as done, an exception leaves the loop, or the loop goes on with
  \<^verbatim>\<open>retry_count + 1\<close>. The \<^verbatim>\<open>except\<close> clause logs, counts the attempt and raises again
  once the count has reached \<open>max_retries\<close>; the exception that the turn raises itself
  after the last unconfirmed upsert passes through the same clause.
\<close>

datatype turn = Done | Raise exn | Again

definition upsert_except :: "exn \<Rightarrow> nat \<Rightarrow> state \<Rightarrow> turn \<times> state" where
  "upsert_except e retry_count s =
     (let s1 = emit (Logged (UpsertError (retry_count + 1))) s
      in if retry_count + 1 \<ge> max_retries then (Raise e, s1) else (Again, s1))"

definition upsert_attempt :: "item_env \<Rightarrow> spot_record \<Rightarrow> nat \<Rightarrow> state \<Rightarrow> turn \<times> state" where
  "upsert_attempt env data retry_count s =
     (let s1 = (if retry_count > 0 then emit (Slept (1 * retry_count)) s else s);
          s2 = emit (UpsertReq data) s1
      in case upsert_resp env retry_count of
           Inl e \<Rightarrow> upsert_except e retry_count s2
         | Inr has_data \<Rightarrow>
             if has_data then (Done, s2)
             else
               (let s3 = emit (CheckReq (sr_device_id data) (sr_recorded_at data))
                           (emit (Logged UpsertPayload)
                             (emit (Logged (UpsertNoData (retry_count + 1))) s2))
                in case check_resp env retry_count of
                     Inl e \<Rightarrow> upsert_except e retry_count s3
                   | Inr found \<Rightarrow>
                       if found then (Done, s3)
                       else if retry_count + 1 \<ge> max_retries then
                         (Raise UpsertExhausted,
                          emit (Logged (UpsertError (retry_count + 2))) s3)
                       else (Again, s3)))"

text \<open>
  The loop. When the condition is false on entry the loop is skipped and the code
  after it runs.
\<close>

function upsert_loop :: "item_env \<Rightarrow> spot_record \<Rightarrow> nat \<Rightarrow> state \<Rightarrow> (exn + unit) \<times> state" where
  "upsert_loop env data retry_count s =
     (if retry_count < max_retries then
        (case upsert_attempt env data retry_count s of
           (Done, s1) \<Rightarrow> (Inr (), s1)
         | (Raise e, s1) \<Rightarrow> (Inl e, s1)
         | (Again, s1) \<Rightarrow> upsert_loop env data (retry_count + 1) s1)
      else (Inr (), s))"
  by pat_completeness auto
termination
  by (relation "measure (\<lambda>(env, data, retry_count, s). max_retries - retry_count)") auto

declare upsert_loop.simps [simp del]

section \<open>The pipeline for one item\<close>

text \<open>
  \<^verbatim>\<open>str.strip()\<close> removes leading and trailing white space; \<open>py_isspace\<close> lists the
  code points that Python counts as white space.
\<close>

definition py_isspace :: "nat \<Rightarrow> bool" where
  "py_isspace c \<longleftrightarrow>
     (9 \<le> c \<and> c \<le> 13) \<or> (28 \<le> c \<and> c \<le> 32) \<or> c = 133 \<or> c = 160 \<or> c = 5760 \<or>
     (8192 \<le> c \<and> c \<le> 8202) \<or> c = 8232 \<or> c = 8233 \<or> c = 8239 \<or> c = 8287 \<or> c = 12288"

definition strip :: "pytext \<Rightarrow> pytext" where
  "strip t = rev (dropWhile py_isspace (rev (dropWhile py_isspace t)))"

text \<open>The literal stored for an empty transcript, U+767A U+8A71 U+306A U+3057.\<close>

definition no_speech_sentinel :: pytext where
  "no_speech_sentinel = [30330, 35441, 12394, 12375]"

definition final_transcription :: "pytext \<Rightarrow> pytext" where
  "final_transcription text = (if text \<noteq> [] then text else no_speech_sentinel)"

text \<open>
  The quota check: the flag \<^verbatim>\<open>is_quota_exceeded\<close> is set and two warnings are logged
  when the stripped text is empty, \<^verbatim>\<open>no_speech_detected\<close> is false or absent, and the
  hour in Tokyo is before 9.
\<close>

definition quota_check :: "pytext \<Rightarrow> asr_result \<Rightarrow> nat \<Rightarrow> state \<Rightarrow> bool \<times> state" where
  "quota_check text result hour s =
     (if text = [] \<and> (case no_speech_detected result of None \<Rightarrow> True | Some b \<Rightarrow> \<not> b) then
        (if hour < 9 then
           (True, emit (Logged QuotaRetryAfterNine) (emit (Logged QuotaSuspected) s))
         else (False, s))
      else (False, s))"

text \<open>The lookup of local date and time; its failure is logged and tolerated.\<close>

definition fetch_local :: "item_env \<Rightarrow> state \<Rightarrow> (string option \<times> string option) \<times> state" where
  "fetch_local env s =
     (case local_lookup env of
        Inl e \<Rightarrow> ((None, None), emit (Logged LocalLookupError) s)
      | Inr rows \<Rightarrow>
          (case rows of
             [] \<Rightarrow> ((None, None), emit (Logged NoLocalRecord) s)
           | row # _ \<Rightarrow> (row, s)))"

text \<open>
  The body of the inner \<^verbatim>\<open>try\<close>: download, recognise, classify, enrich, upsert,
  append to \<^verbatim>\<open>successfully_transcribed\<close>.
\<close>

definition pipeline_body ::
  "item_env \<Rightarrow> work_item \<Rightarrow> string \<Rightarrow> string list \<Rightarrow> state \<Rightarrow> (exn + unit) \<times> string list \<times> state" where
  "pipeline_body env audio_file tmp_file_path successfully_transcribed s =
     (case s3_download env of
        Some e \<Rightarrow> (Inl e, successfully_transcribed, s)
      | None \<Rightarrow>
          (let s1 = s\<lparr>scratch := insert tmp_file_path (scratch s)\<rparr>
           in case asr_transcribe env of
                Inl e \<Rightarrow> (Inl e, successfully_transcribed, s1)
              | Inr transcription_result \<Rightarrow>
                  (let text = strip (transcription transcription_result)
                   in case quota_check text transcription_result (jst_hour env) s1 of
                        (is_quota_exceeded, s2) \<Rightarrow>
                          (case fetch_local env s2 of
                             ((local_date, local_time), s3) \<Rightarrow>
                               (let data = \<lparr>sr_device_id = wi_device_id audio_file,
                                            sr_recorded_at = wi_recorded_at audio_file,
                                            sr_local_date = local_date,
                                            sr_local_time = local_time,
                                            vibe_transcriber_result = final_transcription text\<rparr>
                                in case upsert_loop env data 0 s3 of
                                     (Inl e, s4) \<Rightarrow> (Inl e, successfully_transcribed, s4)
                                   | (Inr _, s4) \<Rightarrow>
                                       (Inr (),
                                        successfully_transcribed @ [wi_file_path audio_file],
                                        s4))))))"

text \<open>The \<^verbatim>\<open>finally\<close> clause: unlink the scratch file when it exists.\<close>

definition release_scratch :: "string \<Rightarrow> state \<Rightarrow> state" where
  "release_scratch tmp_file_path s =
     (if tmp_file_path \<in> scratch s then s\<lparr>scratch := scratch s - {tmp_file_path}\<rparr> else s)"

text \<open>The two \<^verbatim>\<open>except\<close> clauses of the loop body.\<close>

definition item_error ::
  "exn \<Rightarrow> work_item \<Rightarrow> string list \<times> work_item list \<times> state \<Rightarrow> string list \<times> work_item list \<times> state" where
  "item_error e audio_file acc =
     (case acc of (successfully_transcribed, error_files, s) \<Rightarrow>
        (case e of
           ClientError \<Rightarrow>
             (successfully_transcribed, error_files @ [audio_file],
              emit (Logged (S3Error (wi_file_path audio_file))) s)
         | _ \<Rightarrow>
             (successfully_transcribed, error_files @ [audio_file],
              emit (Logged (ItemError (wi_file_path audio_file))) s)))"

text \<open>One turn of \<^verbatim>\<open>for audio_file in files_to_process\<close>.\<close>

definition process_item ::
  "item_env \<Rightarrow> work_item \<Rightarrow> string list \<times> work_item list \<times> state \<Rightarrow> string list \<times> work_item list \<times> state" where
  "process_item env audio_file acc =
     (case acc of (successfully_transcribed, error_files, s) \<Rightarrow>
        (case tmp_create env of
           Inl e \<Rightarrow> item_error e audio_file acc
         | Inr tmp_file_path \<Rightarrow>
             (let s1 = s\<lparr>scratch := insert tmp_file_path (scratch s)\<rparr>
              in case pipeline_body env audio_file tmp_file_path successfully_transcribed s1 of
                   (r, succ, s2) \<Rightarrow>
                     (let s3 = release_scratch tmp_file_path s2
                      in case r of
                           Inr _ \<Rightarrow> (succ, error_files, s3)
                         | Inl e \<Rightarrow> item_error e audio_file (succ, error_files, s3)))))"

fun process_files ::
  "(nat \<Rightarrow> item_env) \<Rightarrow> nat \<Rightarrow> work_item list \<Rightarrow> string list \<times> work_item list \<times> state \<Rightarrow>
   string list \<times> work_item list \<times> state" where
  "process_files envs i [] acc = acc"
| "process_files envs i (audio_file # rest) acc =
     process_files envs (Suc i) rest (process_item (envs i) audio_file acc)"

section \<open>The batch operation\<close>

text \<open>
  \<^verbatim>\<open>FetchAndTranscribeRequest\<close> (its class is declared outside the two files; the
  fields are those the code reads).
\<close>

record request =
  req_device_id :: "string option"
  req_local_date :: "string option"
  req_time_blocks :: "string list option"
  req_file_paths :: "string list option"
  req_model :: string

text \<open>Python's truth value of an optional string or list: present and non-empty.\<close>

definition truthy :: "'a list option \<Rightarrow> bool" where
  "truthy v = (case v of None \<Rightarrow> False | Some xs \<Rightarrow> xs \<noteq> [])"

definition py_value :: "'a list option \<Rightarrow> 'a list" where
  "py_value v = (case v of None \<Rightarrow> [] | Some xs \<Rightarrow> xs)"

text \<open>
  The returned dictionary. A key that a variant of the response leaves out and a key
  whose value is \<^verbatim>\<open>None\<close> are both \<open>None\<close> here. The elapsed time, the message and the
  provider's names are left out.
\<close>

record batch_result =
  br_status :: string
  br_total_files :: nat
  br_already_completed :: "nat option"
  br_pending_processed :: nat
  br_errors :: nat
  br_device_id :: "string option"
  br_local_date :: "string option"
  br_time_blocks_requested :: "string list option"
  br_processed_time_blocks :: "string list option"
  br_processed_files :: "string list option"
  br_error_files :: "string list option"

definition empty_device_result :: "request \<Rightarrow> batch_result" where
  "empty_device_result request =
     \<lparr>br_status = ''success'', br_total_files = 0, br_already_completed = Some 0,
      br_pending_processed = 0, br_errors = 0,
      br_device_id = req_device_id request, br_local_date = req_local_date request,
      br_time_blocks_requested = req_time_blocks request,
      br_processed_time_blocks = Some [],
      br_processed_files = None, br_error_files = None\<rparr>"

definition empty_paths_result :: batch_result where
  "empty_paths_result =
     \<lparr>br_status = ''success'', br_total_files = 0, br_already_completed = Some 0,
      br_pending_processed = 0, br_errors = 0,
      br_device_id = None, br_local_date = None,
      br_time_blocks_requested = None, br_processed_time_blocks = None,
      br_processed_files = Some [], br_error_files = None\<rparr>"

text \<open>The response built after the loop, for either interface.\<close>

definition build_result ::
  "request \<Rightarrow> string list \<Rightarrow> string list \<Rightarrow> work_item list \<Rightarrow> batch_result" where
  "build_result request file_paths successfully_transcribed error_files =
     (if truthy (req_device_id request) \<and> truthy (req_local_date request) then
        \<lparr>br_status = ''success'', br_total_files = length file_paths,
         br_already_completed = None,
         br_pending_processed = length successfully_transcribed,
         br_errors = length error_files,
         br_device_id = req_device_id request, br_local_date = req_local_date request,
         br_time_blocks_requested = req_time_blocks request,
         br_processed_time_blocks = None,
         br_processed_files = Some successfully_transcribed,
         br_error_files =
           (if error_files \<noteq> [] then Some (map wi_file_path error_files) else None)\<rparr>
      else
        \<lparr>br_status = ''success'', br_total_files = length file_paths,
         br_already_completed = None,
         br_pending_processed = length successfully_transcribed,
         br_errors = length error_files,
         br_device_id = None, br_local_date = None,
         br_time_blocks_requested = None, br_processed_time_blocks = None,
         br_processed_files = Some successfully_transcribed,
         br_error_files =
           (if error_files \<noteq> [] then Some (map wi_file_path error_files) else None)\<rparr>)"

definition row_item :: "audio_row \<Rightarrow> work_item" where
  "row_item audio_file =
     \<lparr>wi_file_path = ar_file_path audio_file, wi_device_id = ar_device_id audio_file,
      wi_recorded_at = ar_recorded_at audio_file\<rparr>"

text \<open>
  The lookup of each path of the explicit interface: a path without a row is logged
  and dropped, and so is a path whose lookup raises.
\<close>

fun resolve_paths ::
  "world \<Rightarrow> nat \<Rightarrow> string list \<Rightarrow> work_item list \<times> state \<Rightarrow> work_item list \<times> state" where
  "resolve_paths w i [] acc = acc"
| "resolve_paths w i (file_path # rest) (files_to_process, s) =
     resolve_paths w (Suc i) rest
       (case catalog_lookup w i file_path of
          Inl e \<Rightarrow> (files_to_process, emit (Logged (LookupError file_path)) s)
        | Inr None \<Rightarrow> (files_to_process, emit (Logged (RecordNotFound file_path)) s)
        | Inr (Some (device_id, recorded_at)) \<Rightarrow>
            (files_to_process @
               [\<lparr>wi_file_path = file_path, wi_device_id = device_id,
                 wi_recorded_at = recorded_at\<rparr>], s))"

text \<open>\<^verbatim>\<open>files_to_process\<close>: from the rows when there are rows, else from the lookups.\<close>

definition resolve_items ::
  "world \<Rightarrow> string list \<Rightarrow> audio_row list option \<Rightarrow> state \<Rightarrow> work_item list \<times> state" where
  "resolve_items w file_paths audio_files s =
     (if truthy audio_files then (map row_item (py_value audio_files), s)
      else resolve_paths w 0 file_paths ([], s))"

text \<open>Everything after the request has been read: resolve, loop, respond.\<close>

definition run_batch ::
  "world \<Rightarrow> request \<Rightarrow> string list \<Rightarrow> audio_row list option \<Rightarrow> state \<Rightarrow>
   (exn + batch_result) \<times> state" where
  "run_batch w request file_paths audio_files s =
     (if file_paths = [] then (Inr empty_paths_result, s)
      else
        (case resolve_items w file_paths audio_files s of
           (files_to_process, s1) \<Rightarrow>
             (case process_files (item_envs w) 0 files_to_process ([], [], s1) of
                (successfully_transcribed, error_files, s2) \<Rightarrow>
                  (Inr (build_result request file_paths successfully_transcribed error_files),
                   s2))))"

text \<open>\<^verbatim>\<open>TranscriberService.fetch_and_transcribe_files\<close>.\<close>

definition fetch_and_transcribe_files ::
  "world \<Rightarrow> request \<Rightarrow> state \<Rightarrow> (exn + batch_result) \<times> state" where
  "fetch_and_transcribe_files w request s =
     (if truthy (req_device_id request) \<and> truthy (req_local_date request) then
        (case catalog_query w (py_value (req_device_id request))
                (py_value (req_local_date request))
                (if truthy (req_time_blocks request) then req_time_blocks request else None) of
           Inl e \<Rightarrow> (Inl (HTTPException 500), emit (Logged QueryError) s)
         | Inr audio_files \<Rightarrow>
             (let file_paths = map ar_file_path audio_files
              in if file_paths = [] then (Inr (empty_device_result request), s)
                 else run_batch w request file_paths (Some audio_files) s))
      else if truthy (req_file_paths request) then
        run_batch w request (py_value (req_file_paths request)) None s
      else (Inl (HTTPException 400), s))"

text \<open>The route \<^verbatim>\<open>POST /fetch-and-transcribe\<close>.\<close>

definition fetch_and_transcribe ::
  "world \<Rightarrow> request \<Rightarrow> state \<Rightarrow> (exn + batch_result) \<times> state" where
  "fetch_and_transcribe w request s =
     (if req_model request \<noteq> ''azure'' \<and> req_model request \<noteq> ''groq'' then
        (Inl (HTTPException 400), s)
      else
        (case fetch_and_transcribe_files w request s of
           (Inr result, s1) \<Rightarrow> (Inr result, s1)
         | (Inl (HTTPException c), s1) \<Rightarrow> (Inl (HTTPException c), s1)
         | (Inl e, s1) \<Rightarrow> (Inl (HTTPException 500), emit (Logged RouteError) s1)))"

text \<open>
  The status line the framework sends: 200 for a returned dictionary, the code of an
  \<^verbatim>\<open>HTTPException\<close>, 500 for any other exception.
\<close>

definition http_status :: "exn + 'a \<Rightarrow> nat" where
  "http_status r =
     (case r of Inr _ \<Rightarrow> 200 | Inl (HTTPException c) \<Rightarrow> c | Inl _ \<Rightarrow> 500)"

section \<open>The asynchronous endpoint\<close>

record async_request =
  ap_file_path :: string
  ap_device_id :: string
  ap_recorded_at :: string

record accepted =
  acc_status :: string
  acc_message :: string
  acc_device_id :: string
  acc_recorded_at :: string

datatype task = ProcessInBackground string string string

text \<open>\<^verbatim>\<open>sqs.send_message\<close>: the message is published when the call returns.\<close>

definition sqs_send :: "world \<Rightarrow> terminal_event \<Rightarrow> state \<Rightarrow> (exn + unit) \<times> state" where
  "sqs_send w ev s =
     (case sqs_send_resp w ev of
        Some e \<Rightarrow> (Inl e, s)
      | None \<Rightarrow> (Inr (), emit (Published ev) s))"

text \<open>
  The route \<^verbatim>\<open>POST /async-process\<close> (status code 202): set the status to
  \<^verbatim>\<open>processing\<close>, log a failure of that, add the background task, answer.
\<close>

definition async_process :: "world \<Rightarrow> async_request \<Rightarrow> state \<Rightarrow> accepted \<times> task list \<times> state" where
  "async_process w request s =
     (let s2 = (case update_status w (ap_device_id request) (ap_recorded_at request)
                       ''vibe_status'' ''processing'' s of
                  (Inl e, s1) \<Rightarrow> emit (Logged AcceptStatusFailed) s1
                | (Inr _, s1) \<Rightarrow> s1)
      in (\<lparr>acc_status = ''accepted'', acc_message = ''Processing started in background'',
           acc_device_id = ap_device_id request, acc_recorded_at = ap_recorded_at request\<rparr>,
          [ProcessInBackground (ap_file_path request) (ap_device_id request)
             (ap_recorded_at request)],
          s2))"

text \<open>
  The two message bodies: the completion message carries
  \<^verbatim>\<open>result.get('processed_files', [])\<close>, the failure message the text of the exception.
\<close>

definition completed_event :: "string \<Rightarrow> string \<Rightarrow> string list \<Rightarrow> terminal_event" where
  "completed_event device_id recorded_at files =
     \<lparr>ev_device_id = device_id, ev_recorded_at = recorded_at, ev_feature_type = ''vibe'',
      ev_status = ''completed'', ev_payload = ProcessedFiles files\<rparr>"

definition failed_event :: "string \<Rightarrow> string \<Rightarrow> exn \<Rightarrow> terminal_event" where
  "failed_event device_id recorded_at e =
     \<lparr>ev_device_id = device_id, ev_recorded_at = recorded_at, ev_feature_type = ''vibe'',
      ev_status = ''failed'', ev_payload = ErrorText e\<rparr>"

text \<open>
  The \<^verbatim>\<open>except Exception\<close> clause of \<^verbatim>\<open>process_in_background\<close>: log, try to set the
  status to \<^verbatim>\<open>failed\<close> and ignore a failure of that, send the failure message. An
  exception of the send leaves the function.
\<close>

definition background_failed ::
  "world \<Rightarrow> string \<Rightarrow> string \<Rightarrow> exn \<Rightarrow> state \<Rightarrow> (exn + unit) \<times> state" where
  "background_failed w device_id recorded_at e s =
     (case update_status w device_id recorded_at ''vibe_status'' ''failed''
             (emit (Logged BackgroundFailed) s) of
        (u, s1) \<Rightarrow> sqs_send w (failed_event device_id recorded_at e) s1)"

text \<open>
  The request that \<^verbatim>\<open>process_in_background\<close> builds:
  \<^verbatim>\<open>FetchAndTranscribeRequest(file_paths=[file_path], model="groq")\<close>. The class is
  declared outside the two files; its constructor is taken to return for a request
  with a list of paths.
\<close>

definition single_request :: "string \<Rightarrow> request" where
  "single_request file_path =
     \<lparr>req_device_id = None, req_local_date = None, req_time_blocks = None,
      req_file_paths = Some [file_path], req_model = ''groq''\<rparr>"

text \<open>
  \<^verbatim>\<open>process_in_background\<close>: run the batch operation on the one path, set the status
  to \<^verbatim>\<open>completed\<close>, send the completion message; any exception on the way enters the
  clause above.
\<close>

definition process_in_background ::
  "world \<Rightarrow> string \<Rightarrow> string \<Rightarrow> string \<Rightarrow> state \<Rightarrow> (exn + unit) \<times> state" where
  "process_in_background w file_path device_id recorded_at s =
     (let request = single_request file_path
      in case fetch_and_transcribe_files w request s of
           (Inl e, s1) \<Rightarrow> background_failed w device_id recorded_at e s1
         | (Inr result, s1) \<Rightarrow>
             (case update_status w device_id recorded_at ''vibe_status'' ''completed'' s1 of
                (Inl e, s2) \<Rightarrow> background_failed w device_id recorded_at e s2
              | (Inr _, s2) \<Rightarrow>
                  (case sqs_send w
                          (completed_event device_id recorded_at
                             (py_value (br_processed_files result)))
                          s2 of
                     (Inl e, s3) \<Rightarrow> background_failed w device_id recorded_at e s3
                   | (Inr _, s3) \<Rightarrow> (Inr (), s3))))"

fun run_task :: "world \<Rightarrow> task \<Rightarrow> state \<Rightarrow> (exn + unit) \<times> state" where
  "run_task w (ProcessInBackground file_path device_id recorded_at) s =
     process_in_background w file_path device_id recorded_at s"

text \<open>
  A request to the asynchronous endpoint run to its end: the route, then the tasks it
  added, in order (a task that raises ends the run).
\<close>

fun run_background :: "world \<Rightarrow> task list \<Rightarrow> state \<Rightarrow> state" where
  "run_background w [] s = s"
| "run_background w (t # ts) s =
     (case run_task w t s of
        (Inl e, s1) \<Rightarrow> s1
      | (Inr _, s1) \<Rightarrow> run_background w ts s1)"

definition accept_and_run :: "world \<Rightarrow> async_request \<Rightarrow> state \<Rightarrow> accepted \<times> state" where
  "accept_and_run w request s =
     (case async_process w request s of
        (response, tasks, s1) \<Rightarrow> (response, run_background w tasks s1))"

section \<open>Notions used to state the properties\<close>

text \<open>The effects added between a state and a later one.\<close>

definition new_trace :: "state \<Rightarrow> state \<Rightarrow> effect list" where
  "new_trace s s' = drop (length (trace s)) (trace s')"

text \<open>
  Attempt \<open>k\<close> of an upsert is confirmed when the upsert returns a row, or returns none
  and the read that follows finds one.
\<close>

definition confirmed :: "item_env \<Rightarrow> nat \<Rightarrow> bool" where
  "confirmed env k \<longleftrightarrow>
     upsert_resp env k = Inr True \<or> (upsert_resp env k = Inr False \<and> check_resp env k = Inr True)"

text \<open>
  The exception of an attempt that is not confirmed: that of the upsert request, else
  that of the read, else the loop's own.
\<close>

definition attempt_error :: "item_env \<Rightarrow> nat \<Rightarrow> exn" where
  "attempt_error env k =
     (case upsert_resp env k of
        Inl e \<Rightarrow> e
      | Inr _ \<Rightarrow> (case check_resp env k of Inl e \<Rightarrow> e | Inr _ \<Rightarrow> UpsertExhausted))"

text \<open>The number of the first confirmed attempt, or 3 when none of the three is.\<close>

definition upsert_attempts :: "item_env \<Rightarrow> nat" where
  "upsert_attempts env = (if confirmed env 0 then 1 else if confirmed env 1 then 2 else 3)"

text \<open>The local date and time that the lookup yields: those of the first row, if any.\<close>

definition local_fields :: "item_env \<Rightarrow> string option \<times> string option" where
  "local_fields env =
     (case local_lookup env of
        Inl _ \<Rightarrow> (None, None)
      | Inr rows \<Rightarrow> (case rows of [] \<Rightarrow> (None, None) | row # _ \<Rightarrow> row))"

text \<open>
  An item is processed when its scratch file is created, the download and the
  recogniser return, and one of the three upsert attempts is confirmed.
\<close>

definition item_ok :: "item_env \<Rightarrow> bool" where
  "item_ok env \<longleftrightarrow>
     (case tmp_create env of Inl _ \<Rightarrow> False | Inr _ \<Rightarrow> True) \<and>
     s3_download env = None \<and>
     (case asr_transcribe env of Inl _ \<Rightarrow> False | Inr _ \<Rightarrow> True) \<and>
     (confirmed env 0 \<or> confirmed env 1 \<or> confirmed env 2)"

text \<open>The upsert requests that the processing of one item sends.\<close>

definition item_upserts :: "item_env \<Rightarrow> work_item \<Rightarrow> spot_record list" where
  "item_upserts env audio_file =
     (case tmp_create env of
        Inl _ \<Rightarrow> []
      | Inr _ \<Rightarrow>
          (case s3_download env of
             Some _ \<Rightarrow> []
           | None \<Rightarrow>
               (case asr_transcribe env of
                  Inl _ \<Rightarrow> []
                | Inr result \<Rightarrow>
                    replicate (upsert_attempts env)
                      \<lparr>sr_device_id = wi_device_id audio_file,
                       sr_recorded_at = wi_recorded_at audio_file,
                       sr_local_date = fst (local_fields env),
                       sr_local_time = snd (local_fields env),
                       vibe_transcriber_result =
                         final_transcription (strip (transcription result))\<rparr>)))"

text \<open>The condition under which the two quota warnings are logged for an item.\<close>

definition quota_fires :: "item_env \<Rightarrow> bool" where
  "quota_fires env \<longleftrightarrow>
     (case tmp_create env of Inl _ \<Rightarrow> False | Inr _ \<Rightarrow> True) \<and>
     s3_download env = None \<and>
     (case asr_transcribe env of
        Inl _ \<Rightarrow> False
      | Inr result \<Rightarrow>
          strip (transcription result) = [] \<and> no_speech_detected result \<noteq> Some True \<and>
          jst_hour env < 9)"

text \<open>The work items that a request resolves to.\<close>

definition files_to_process :: "world \<Rightarrow> request \<Rightarrow> state \<Rightarrow> work_item list" where
  "files_to_process w request s =
     (if truthy (req_device_id request) \<and> truthy (req_local_date request) then
        (case catalog_query w (py_value (req_device_id request))
                (py_value (req_local_date request))
                (if truthy (req_time_blocks request) then req_time_blocks request else None) of
           Inl _ \<Rightarrow> []
         | Inr audio_files \<Rightarrow> map row_item audio_files)
      else if truthy (req_file_paths request) then
        fst (resolve_paths w 0 (py_value (req_file_paths request)) ([], s))
      else [])"

text \<open>For each of the first \<open>n\<close> items in turn, whether it is processed.\<close>

definition item_flags :: "(nat \<Rightarrow> item_env) \<Rightarrow> nat \<Rightarrow> nat \<Rightarrow> bool list" where
  "item_flags envs i n = map (\<lambda>j. item_ok (envs j)) [i..<i + n]"

text \<open>
  A batch request gets past validation and resolution: the model is one of the two
  supported, and either device and date are given and the catalogue query returns, or
  paths are given.
\<close>

definition batch_accepted :: "world \<Rightarrow> request \<Rightarrow> bool" where
  "batch_accepted w request \<longleftrightarrow>
     (req_model request = ''azure'' \<or> req_model request = ''groq'') \<and>
     (if truthy (req_device_id request) \<and> truthy (req_local_date request) then
        (case catalog_query w (py_value (req_device_id request))
                (py_value (req_local_date request))
                (if truthy (req_time_blocks request) then req_time_blocks request else None) of
           Inl _ \<Rightarrow> False
         | Inr _ \<Rightarrow> True)
      else truthy (req_file_paths request))"

text \<open>The items of a request that are processed, and those that are not.\<close>

definition processed_items :: "world \<Rightarrow> request \<Rightarrow> state \<Rightarrow> work_item list" where
  "processed_items w request s =
     map fst (filter snd
       (zip (files_to_process w request s)
            (item_flags (item_envs w) 0 (length (files_to_process w request s)))))"

definition errored_items :: "world \<Rightarrow> request \<Rightarrow> state \<Rightarrow> work_item list" where
  "errored_items w request s =
     map fst (filter (\<lambda>x. \<not> snd x)
       (zip (files_to_process w request s)
            (item_flags (item_envs w) 0 (length (files_to_process w request s)))))"

text \<open>
  A status write goes through: the update returns a row, or returns none and the
  insert returns.
\<close>

definition status_write_ok :: "world \<Rightarrow> string \<Rightarrow> string \<Rightarrow> string \<Rightarrow> string \<Rightarrow> bool" where
  "status_write_ok w device_id recorded_at status_field status_value \<longleftrightarrow>
     status_update_resp w device_id recorded_at status_field status_value = Inr True \<or>
     (status_update_resp w device_id recorded_at status_field status_value = Inr False \<and>
      status_insert_resp w device_id recorded_at status_field status_value = None)"

section \<open>Concrete collaborators for the worked runs\<close>

text \<open>
  Collaborators that all answer well: the recogniser hears ``hello'', every upsert
  returns its row, every path resolves to device \<open>d2\<close>.
\<close>

definition ok_env :: item_env where
  "ok_env =
     \<lparr>tmp_create = Inr ''/tmp/tmp0.wav'',
      s3_download = None,
      asr_transcribe = Inr \<lparr>transcription = [104, 101, 108, 108, 111],
                           no_speech_detected = Some False\<rparr>,
      jst_hour = 12,
      local_lookup = Inr [(Some ''2024-01-01'', Some ''09:00:00'')],
      upsert_resp = (\<lambda>k. Inr True),
      check_resp = (\<lambda>k. Inr False)\<rparr>"

definition ok_world :: world where
  "ok_world =
     \<lparr>catalog_query = (\<lambda>d l t. Inr []),
      catalog_lookup = (\<lambda>i p. Inr (Some (''d2'', ''2024-01-01T00:00:00Z''))),
      item_envs = (\<lambda>i. ok_env),
      status_update_resp = (\<lambda>d r f v. Inr True),
      status_insert_resp = (\<lambda>d r f v. None),
      sqs_send_resp = (\<lambda>ev. None)\<rparr>"

definition init_state :: state where
  "init_state = \<lparr>scratch = {}, status_tbl = (\<lambda>k. None), trace = []\<rparr>"

definition item_x :: work_item where
  "item_x = \<lparr>wi_file_path = ''x.wav'', wi_device_id = ''d2'',
             wi_recorded_at = ''2024-01-01T00:00:00Z''\<rparr>"

definition data_x :: spot_record where
  "data_x = \<lparr>sr_device_id = ''d2'', sr_recorded_at = ''2024-01-01T00:00:00Z'',
             sr_local_date = None, sr_local_time = None,
             vibe_transcriber_result = [104, 105]\<rparr>"

definition request_x :: async_request where
  "request_x = \<lparr>ap_file_path = ''x.wav'', ap_device_id = ''d2'',
                ap_recorded_at = ''2024-01-01T00:00:00Z''\<rparr>"

definition request_ab :: request where
  "request_ab = \<lparr>req_device_id = None, req_local_date = None, req_time_blocks = None,
                 req_file_paths = Some [''a.wav'', ''b.wav''], req_model = ''groq''\<rparr>"

section \<open>The retry policy of the upsert\<close>

lemma upserts_of_append: "upserts_of (a @ b) = upserts_of a @ upserts_of b"
  by (induction a rule: upserts_of.induct) auto

lemma sleeps_of_append: "sleeps_of (a @ b) = sleeps_of a @ sleeps_of b"
  by (induction a rule: sleeps_of.induct) auto

lemma checks_of_append: "checks_of (a @ b) = checks_of a @ checks_of b"
  by (induction a rule: checks_of.induct) auto

lemma published_of_append: "published_of (a @ b) = published_of a @ published_of b"
  by (induction a rule: published_of.induct) auto

lemma logs_of_append: "logs_of (a @ b) = logs_of a @ logs_of b"
  by (induction a rule: logs_of.induct) auto

lemmas proj_append =
  upserts_of_append sleeps_of_append checks_of_append published_of_append logs_of_append

lemma new_trace_append: "trace s' = trace s @ t \<Longrightarrow> new_trace s s' = t"
  by (simp add: new_trace_def)

lemma upsert_attempt_frame:
  "upsert_attempt env data k s = (t, s1) \<Longrightarrow>
   scratch s1 = scratch s \<and> status_tbl s1 = status_tbl s"
  by (auto simp: upsert_attempt_def upsert_except_def Let_def emit_def
      split: sum.splits if_splits)

lemma upsert_attempt_trace:
  "upsert_attempt env data k s = (t, s1) \<Longrightarrow>
   \<exists>new. trace s1 = trace s @ new \<and>
        upserts_of new = [data] \<and>
        sleeps_of new = (if k > 0 then [k] else []) \<and>
        checks_of new = (if upsert_resp env k = Inr False
                         then [(sr_device_id data, sr_recorded_at data)] else []) \<and>
        published_of new = [] \<and>
        QuotaSuspected \<notin> set (logs_of new) \<and> QuotaRetryAfterNine \<notin> set (logs_of new)"
  by (auto simp: upsert_attempt_def upsert_except_def Let_def emit_def
      split: sum.splits if_splits)

lemma upsert_attempt_turn:
  "upsert_attempt env data k s = (t, s1) \<Longrightarrow>
     (t = Done \<longleftrightarrow> confirmed env k) \<and>
     (t = Again \<longleftrightarrow> \<not> confirmed env k \<and> k + 1 < max_retries) \<and>
     (\<not> confirmed env k \<and> k + 1 \<ge> max_retries \<longrightarrow> t = Raise (attempt_error env k))"
  by (auto simp: upsert_attempt_def upsert_except_def Let_def emit_def confirmed_def
      attempt_error_def split: sum.splits if_splits)

lemma upsert_loop_again:
  "rc < max_retries \<Longrightarrow> upsert_attempt env data rc s = (Again, s1) \<Longrightarrow>
   upsert_loop env data rc s = upsert_loop env data (rc + 1) s1"
  by (subst upsert_loop.simps) simp

lemma upsert_loop_done:
  "rc < max_retries \<Longrightarrow> upsert_attempt env data rc s = (Done, s1) \<Longrightarrow>
   upsert_loop env data rc s = (Inr (), s1)"
  by (subst upsert_loop.simps) simp

lemma upsert_loop_raise:
  "rc < max_retries \<Longrightarrow> upsert_attempt env data rc s = (Raise e, s1) \<Longrightarrow>
   upsert_loop env data rc s = (Inl e, s1)"
  by (subst upsert_loop.simps) simp

lemma upsert_loop_spec:
  assumes run: "upsert_loop env data 0 s = (r, s')"
  shows "scratch s' = scratch s \<and> status_tbl s' = status_tbl s \<and>
     (\<exists>new. trace s' = trace s @ new \<and>
        upserts_of new = replicate (upsert_attempts env) data \<and>
        sleeps_of new = [1..<upsert_attempts env] \<and>
        checks_of new =
          map (\<lambda>k. (sr_device_id data, sr_recorded_at data))
            (filter (\<lambda>k. upsert_resp env k = Inr False) [0..<upsert_attempts env]) \<and>
        published_of new = [] \<and>
        QuotaSuspected \<notin> set (logs_of new) \<and> QuotaRetryAfterNine \<notin> set (logs_of new)) \<and>
     r = (if confirmed env 0 \<or> confirmed env 1 \<or> confirmed env 2 then Inr ()
          else Inl (attempt_error env 2))"
proof -
  let ?key = "(sr_device_id data, sr_recorded_at data)"
  let ?chk = "\<lambda>k. if upsert_resp env k = Inr False then [?key] else []"
  obtain t0 s0 where a0: "upsert_attempt env data 0 s = (t0, s0)" by fastforce
  note f0 = upsert_attempt_frame[OF a0] and p0 = upsert_attempt_turn[OF a0]
  from upsert_attempt_trace[OF a0] obtain n0 where n0: "trace s0 = trace s @ n0"
    "upserts_of n0 = [data]" "sleeps_of n0 = []" "checks_of n0 = ?chk 0"
    "published_of n0 = []" "QuotaSuspected \<notin> set (logs_of n0)"
    "QuotaRetryAfterNine \<notin> set (logs_of n0)"
    by (elim exE conjE) simp
  show ?thesis
  proof (cases "confirmed env 0")
    case True
    with p0 have "t0 = Done" by simp
    with run upsert_loop_done[of 0 env data s s0] a0 have "r = Inr ()" "s' = s0"
      by (simp_all add: max_retries_def)
    with True f0 n0 show ?thesis by (auto simp: upsert_attempts_def)
  next
    case c0: False
    with p0 have t0: "t0 = Again" by (simp add: max_retries_def)
    from upsert_loop_again[of 0 env data s s0] a0 t0 run
    have run1: "upsert_loop env data 1 s0 = (r, s')" by (simp add: max_retries_def)
    obtain t1 s1 where a1: "upsert_attempt env data 1 s0 = (t1, s1)" by fastforce
    note f1 = upsert_attempt_frame[OF a1] and p1 = upsert_attempt_turn[OF a1]
    from upsert_attempt_trace[OF a1] obtain n1 where n1: "trace s1 = trace s0 @ n1"
      "upserts_of n1 = [data]" "sleeps_of n1 = [1]" "checks_of n1 = ?chk 1"
      "published_of n1 = []" "QuotaSuspected \<notin> set (logs_of n1)"
      "QuotaRetryAfterNine \<notin> set (logs_of n1)"
      by (elim exE conjE) simp
    show ?thesis
    proof (cases "confirmed env 1")
      case True
      with p1 have "t1 = Done" by simp
      with run1 upsert_loop_done[of 1 env data s0 s1] a1 have rs: "r = Inr ()" "s' = s1"
        by (simp_all add: max_retries_def)
      have att: "upsert_attempts env = 2" using c0 True by (simp add: upsert_attempts_def)
      have up: "[0..<2] = [0, 1::nat]" "[1..<2] = [1::nat]" by (simp_all add: upt_rec)
      let ?new = "n0 @ n1"
      have tr: "trace s1 = trace s @ ?new" using n0 n1 by simp
      have newp: "upserts_of ?new = replicate (upsert_attempts env) data \<and>
        sleeps_of ?new = [1..<upsert_attempts env] \<and>
        checks_of ?new = map (\<lambda>k. ?key)
            (filter (\<lambda>k. upsert_resp env k = Inr False) [0..<upsert_attempts env]) \<and>
        published_of ?new = [] \<and>
        QuotaSuspected \<notin> set (logs_of ?new) \<and> QuotaRetryAfterNine \<notin> set (logs_of ?new)"
      proof -
        have rep: "replicate 2 data = [data, data]" by (simp add: numeral_2_eq_2)
        show ?thesis using n0 n1 up rep by (simp add: proj_append att)
      qed
      have ex: "\<exists>new. trace s' = trace s @ new \<and>
        upserts_of new = replicate (upsert_attempts env) data \<and>
        sleeps_of new = [1..<upsert_attempts env] \<and>
        checks_of new = map (\<lambda>k. ?key)
            (filter (\<lambda>k. upsert_resp env k = Inr False) [0..<upsert_attempts env]) \<and>
        published_of new = [] \<and>
        QuotaSuspected \<notin> set (logs_of new) \<and> QuotaRetryAfterNine \<notin> set (logs_of new)"
          using tr newp rs(2) by (intro exI[of _ ?new]) simp
      from rs(1) True f0 f1 rs(2) ex show ?thesis by simp
    next
      case c1: False
      with p1 have t1: "t1 = Again" by (simp add: max_retries_def)
      from upsert_loop_again[of 1 env data s0 s1] a1 t1 run1
      have run2: "upsert_loop env data 2 s1 = (r, s')"
        by (simp add: max_retries_def numeral_2_eq_2)
      obtain t2 s2 where a2: "upsert_attempt env data 2 s1 = (t2, s2)" by fastforce
      note f2 = upsert_attempt_frame[OF a2] and p2 = upsert_attempt_turn[OF a2]
      from upsert_attempt_trace[OF a2] obtain n2 where n2: "trace s2 = trace s1 @ n2"
        "upserts_of n2 = [data]" "sleeps_of n2 = [2]" "checks_of n2 = ?chk 2"
        "published_of n2 = []" "QuotaSuspected \<notin> set (logs_of n2)"
        "QuotaRetryAfterNine \<notin> set (logs_of n2)"
        by (elim exE conjE) simp
      from p2 have notagain: "t2 \<noteq> Again" by (simp add: max_retries_def)
      let ?new = "n0 @ n1 @ n2"
      have tr: "trace s2 = trace s @ ?new" using n0 n1 n2 by simp
      have up: "[1..<3] = [1, 2::nat]" "[0..<3] = [0, 1, 2::nat]" by (simp_all add: upt_rec)
      have att: "upsert_attempts env = 3" using c0 c1 by (simp add: upsert_attempts_def)
      have newp: "upserts_of ?new = replicate (upsert_attempts env) data \<and>
        sleeps_of ?new = [1..<upsert_attempts env] \<and>
        checks_of ?new = map (\<lambda>k. ?key)
            (filter (\<lambda>k. upsert_resp env k = Inr False) [0..<upsert_attempts env]) \<and>
        published_of ?new = [] \<and>
        QuotaSuspected \<notin> set (logs_of ?new) \<and> QuotaRetryAfterNine \<notin> set (logs_of ?new)"
      proof -
        have rep: "replicate 3 data = [data, data, data]" by (simp add: numeral_3_eq_3)
        show ?thesis using n0 n1 n2 up rep by (simp add: proj_append att)
      qed
      have fr: "scratch s2 = scratch s \<and> status_tbl s2 = status_tbl s"
        using f0 f1 f2 by simp
      show ?thesis
      proof (cases t2)
        case Done
        with run2 upsert_loop_done[of 2 env data s1 s2] a2 have rs: "r = Inr ()" "s' = s2"
          by (simp_all add: max_retries_def)
        from Done p2 have c2: "confirmed env 2" by simp
        have ex: "\<exists>new. trace s' = trace s @ new \<and>
        upserts_of new = replicate (upsert_attempts env) data \<and>
        sleeps_of new = [1..<upsert_attempts env] \<and>
        checks_of new = map (\<lambda>k. ?key)
            (filter (\<lambda>k. upsert_resp env k = Inr False) [0..<upsert_attempts env]) \<and>
        published_of new = [] \<and>
        QuotaSuspected \<notin> set (logs_of new) \<and> QuotaRetryAfterNine \<notin> set (logs_of new)"
          using tr newp rs(2) by (intro exI[of _ ?new]) simp
        from rs c2 fr ex show ?thesis by auto
      next
        case (Raise e)
        with run2 upsert_loop_raise[of 2 env data s1 e s2] a2 have rs: "r = Inl e" "s' = s2"
          by (simp_all add: max_retries_def)
        from Raise p2 have c2: "\<not> confirmed env 2" by simp
        from Raise p2 c2 have ex: "e = attempt_error env 2" by (simp add: max_retries_def)
        from c0 c1 c2 have ok: "\<not> (confirmed env 0 \<or> confirmed env 1 \<or> confirmed env 2)"
          by simp
        have ex2: "\<exists>new. trace s' = trace s @ new \<and>
        upserts_of new = replicate (upsert_attempts env) data \<and>
        sleeps_of new = [1..<upsert_attempts env] \<and>
        checks_of new = map (\<lambda>k. ?key)
            (filter (\<lambda>k. upsert_resp env k = Inr False) [0..<upsert_attempts env]) \<and>
        published_of new = [] \<and>
        QuotaSuspected \<notin> set (logs_of new) \<and> QuotaRetryAfterNine \<notin> set (logs_of new)"
          using tr newp rs(2) by (intro exI[of _ ?new]) simp
        from rs ex ok fr ex2 show ?thesis by auto
      next
        case Again
        with notagain show ?thesis by simp
      qed
    qed
  qed
qed

text \<open>
  What the loop does, entered with \<^verbatim>\<open>retry_count = 0\<close>. It sends the same record
  between one and three times, and sleeps \<open>k\<close> seconds before request \<open>k + 1\<close>. Each
  request that returns no row is followed by one read at the record's own key (device,
  time). The upsert succeeds exactly when one of the three attempts is confirmed (a
  row returned, or none returned and the read finds one); it fails only after the
  third attempt, with the exception of that attempt: the one raised by the request or
  by the read, or, when the request returns no row and the read finds none, the loop's
  own ``upsert failed after 3 attempts''.
\<close>

lemma upsert_loop_policy:
  assumes "upsert_loop env data 0 s = (r, s')"
  shows "upserts_of (new_trace s s') = replicate (upsert_attempts env) data \<and>
     1 \<le> upsert_attempts env \<and> upsert_attempts env \<le> 3 \<and>
     sleeps_of (new_trace s s') = [1..<upsert_attempts env] \<and>
     checks_of (new_trace s s') =
       map (\<lambda>k. (sr_device_id data, sr_recorded_at data))
         (filter (\<lambda>k. upsert_resp env k = Inr False) [0..<upsert_attempts env]) \<and>
     (r = Inr () \<longleftrightarrow> confirmed env 0 \<or> confirmed env 1 \<or> confirmed env 2) \<and>
     (r \<noteq> Inr () \<longrightarrow> upsert_attempts env = 3 \<and> r = Inl (attempt_error env 2)) \<and>
     (upsert_resp env 2 = Inr False \<and> check_resp env 2 = Inr False \<longrightarrow>
        attempt_error env 2 = UpsertExhausted)"
proof -
  from upsert_loop_spec[OF assms] obtain new where
    tr: "trace s' = trace s @ new" and
    n: "upserts_of new = replicate (upsert_attempts env) data"
       "sleeps_of new = [1..<upsert_attempts env]"
       "checks_of new = map (\<lambda>k. (sr_device_id data, sr_recorded_at data))
          (filter (\<lambda>k. upsert_resp env k = Inr False) [0..<upsert_attempts env])" and
    r: "r = (if confirmed env 0 \<or> confirmed env 1 \<or> confirmed env 2 then Inr ()
             else Inl (attempt_error env 2))"
    by blast
  have nt: "new_trace s s' = new" using tr by (rule new_trace_append)
  have b: "1 \<le> upsert_attempts env \<and> upsert_attempts env \<le> 3"
    by (simp add: upsert_attempts_def)
  have e: "r \<noteq> Inr () \<longrightarrow> upsert_attempts env = 3 \<and> r = Inl (attempt_error env 2)"
    using r by (auto simp: upsert_attempts_def)
  have x: "upsert_resp env 2 = Inr False \<and> check_resp env 2 = Inr False \<longrightarrow>
        attempt_error env 2 = UpsertExhausted"
    by (simp add: attempt_error_def)
  have i: "r = Inr () \<longleftrightarrow> confirmed env 0 \<or> confirmed env 1 \<or> confirmed env 2"
    using r by simp
  from nt n i b e x show ?thesis by simp
qed

text \<open>
  Scenario C: the first upsert returns no row and the read finds one. One request, no
  sleep, one read, success.
\<close>

lemma upsert_loop_policy_scenario_c:
  "fst (upsert_loop (ok_env\<lparr>upsert_resp := (\<lambda>k. Inr False), check_resp := (\<lambda>k. Inr True)\<rparr>)
          data_x 0 init_state) = Inr () \<and>
   upserts_of (new_trace init_state
      (snd (upsert_loop (ok_env\<lparr>upsert_resp := (\<lambda>k. Inr False), check_resp := (\<lambda>k. Inr True)\<rparr>)
          data_x 0 init_state))) = [data_x] \<and>
   sleeps_of (new_trace init_state
      (snd (upsert_loop (ok_env\<lparr>upsert_resp := (\<lambda>k. Inr False), check_resp := (\<lambda>k. Inr True)\<rparr>)
          data_x 0 init_state))) = [] \<and>
   checks_of (new_trace init_state
      (snd (upsert_loop (ok_env\<lparr>upsert_resp := (\<lambda>k. Inr False), check_resp := (\<lambda>k. Inr True)\<rparr>)
          data_x 0 init_state))) = [(''d2'', ''2024-01-01T00:00:00Z'')]"
  using upsert_loop_policy[of "ok_env\<lparr>upsert_resp := (\<lambda>k. Inr False), check_resp := (\<lambda>k. Inr True)\<rparr>"
      data_x init_state
      "fst (upsert_loop (ok_env\<lparr>upsert_resp := (\<lambda>k. Inr False), check_resp := (\<lambda>k. Inr True)\<rparr>) data_x 0 init_state)"
      "snd (upsert_loop (ok_env\<lparr>upsert_resp := (\<lambda>k. Inr False), check_resp := (\<lambda>k. Inr True)\<rparr>) data_x 0 init_state)"]
  by (simp add: upsert_attempts_def confirmed_def ok_env_def data_x_def)

text \<open>
  Claim C3, at the run where every upsert returns no row and every read finds none.
  The claim, and the comment at the \<^verbatim>\<open>time.sleep\<close> of the loop, give delays of 1, 2 and
  3 seconds. The code makes its three attempts, fails with the loop's own exception,
  and has slept 1 and 2 seconds: a delay of 3 seconds does not occur.
\<close>

theorem upsert_delays_run:
  "fst (upsert_loop (ok_env\<lparr>upsert_resp := (\<lambda>k. Inr False)\<rparr>) data_x 0 init_state)
     = Inl UpsertExhausted \<and>
   length (upserts_of (new_trace init_state
      (snd (upsert_loop (ok_env\<lparr>upsert_resp := (\<lambda>k. Inr False)\<rparr>) data_x 0 init_state)))) = 3 \<and>
   sleeps_of (new_trace init_state
      (snd (upsert_loop (ok_env\<lparr>upsert_resp := (\<lambda>k. Inr False)\<rparr>) data_x 0 init_state)))
     = [1, 2] \<and>
   sleeps_of (new_trace init_state
      (snd (upsert_loop (ok_env\<lparr>upsert_resp := (\<lambda>k. Inr False)\<rparr>) data_x 0 init_state)))
     \<noteq> [1, 2, 3]"
proof -
  let ?env = "ok_env\<lparr>upsert_resp := (\<lambda>k. Inr False)\<rparr>"
  obtain r s' where run: "upsert_loop ?env data_x 0 init_state = (r, s')" by fastforce
  have c: "\<not> confirmed ?env 0" "\<not> confirmed ?env 1" "\<not> confirmed ?env 2"
    by (simp_all add: confirmed_def ok_env_def)
  have a: "upsert_attempts ?env = 3" using c by (simp add: upsert_attempts_def)
  have p: "upsert_resp ?env 2 = Inr False \<and> check_resp ?env 2 = Inr False"
    by (simp add: ok_env_def)
  from upsert_loop_spec[OF run] obtain new where
    tr: "trace s' = trace init_state @ new" and
    n: "upserts_of new = replicate (upsert_attempts ?env) data_x"
       "sleeps_of new = [1..<upsert_attempts ?env]" and
    r: "r = (if confirmed ?env 0 \<or> confirmed ?env 1 \<or> confirmed ?env 2 then Inr ()
             else Inl (attempt_error ?env 2))"
    by blast
  have nt: "new_trace init_state s' = new" using tr by (rule new_trace_append)
  have up: "[1..<3] = [1, 2::nat]" by (simp add: upt_rec)
  from r p c have "r = Inl UpsertExhausted" by (simp add: attempt_error_def)
  with run nt n a up show ?thesis by simp
qed

section \<open>One item\<close>

lemma quota_check_spec:
  assumes "quota_check text result hour s = (b, s')"
  shows "scratch s' = scratch s \<and> status_tbl s' = status_tbl s \<and>
     (\<exists>new. trace s' = trace s @ new \<and> upserts_of new = [] \<and> published_of new = [] \<and>
        (QuotaSuspected \<in> set (logs_of new) \<longleftrightarrow>
           text = [] \<and> no_speech_detected result \<noteq> Some True \<and> hour < 9) \<and>
        (QuotaRetryAfterNine \<in> set (logs_of new) \<longleftrightarrow>
           text = [] \<and> no_speech_detected result \<noteq> Some True \<and> hour < 9))"
  using assms
  by (auto simp: quota_check_def emit_def split: if_splits option.splits)

lemma fetch_local_spec:
  assumes "fetch_local env s = (row, s')"
  shows "row = local_fields env \<and> scratch s' = scratch s \<and> status_tbl s' = status_tbl s \<and>
     (\<exists>new. trace s' = trace s @ new \<and> upserts_of new = [] \<and> published_of new = [] \<and>
        QuotaSuspected \<notin> set (logs_of new) \<and> QuotaRetryAfterNine \<notin> set (logs_of new))"
  using assms
  by (auto simp: fetch_local_def local_fields_def emit_def split: sum.splits list.splits)

lemma pipeline_body_spec:
  assumes tmp: "tmp_create env = Inr p"
    and run: "pipeline_body env audio_file p succ s = (r, succ', s')"
  shows "scratch s' = (if s3_download env = None then insert p (scratch s) else scratch s) \<and>
     status_tbl s' = status_tbl s \<and>
     (r = Inr () \<longleftrightarrow> item_ok env) \<and>
     succ' = (if item_ok env then succ @ [wi_file_path audio_file] else succ) \<and>
     (\<exists>new. trace s' = trace s @ new \<and>
        upserts_of new = item_upserts env audio_file \<and> published_of new = [] \<and>
        (QuotaSuspected \<in> set (logs_of new) \<longleftrightarrow> quota_fires env) \<and>
        (QuotaRetryAfterNine \<in> set (logs_of new) \<longleftrightarrow> quota_fires env))"
proof (cases "s3_download env")
  case (Some e)
  with run have "r = Inl e" "succ' = succ" "s' = s" by (simp_all add: pipeline_body_def)
  with Some tmp show ?thesis
    by (simp add: item_ok_def item_upserts_def quota_fires_def)
next
  case None
  let ?s1 = "s\<lparr>scratch := insert p (scratch s)\<rparr>"
  show ?thesis
  proof (cases "asr_transcribe env")
    case (Inl e)
    with run None have "r = Inl e" "succ' = succ" "s' = ?s1"
      by (simp_all add: pipeline_body_def)
    with None Inl tmp show ?thesis
      by (simp add: item_ok_def item_upserts_def quota_fires_def)
  next
    case (Inr result)
    let ?text = "strip (transcription result)"
    obtain b s2 where q: "quota_check ?text result (jst_hour env) ?s1 = (b, s2)" by fastforce
    obtain row s3 where l: "fetch_local env s2 = (row, s3)" by fastforce
    let ?data = "\<lparr>sr_device_id = wi_device_id audio_file,
                  sr_recorded_at = wi_recorded_at audio_file,
                  sr_local_date = fst row, sr_local_time = snd row,
                  vibe_transcriber_result = final_transcription ?text\<rparr>"
    obtain u s4 where up: "upsert_loop env ?data 0 s3 = (u, s4)" by fastforce
    from run None Inr q l up have res:
      "s' = s4" "r = (case u of Inl e \<Rightarrow> Inl e | Inr _ \<Rightarrow> Inr ())"
      "succ' = (case u of Inl e \<Rightarrow> succ | Inr _ \<Rightarrow> succ @ [wi_file_path audio_file])"
      by (auto simp: pipeline_body_def Let_def split: prod.splits sum.splits)
    note qs = quota_check_spec[OF q] and ls = fetch_local_spec[OF l]
      and us = upsert_loop_spec[OF up]
    from qs obtain n1 where n1: "trace s2 = trace ?s1 @ n1" "upserts_of n1 = []"
      "published_of n1 = []"
      "QuotaSuspected \<in> set (logs_of n1) \<longleftrightarrow>
         ?text = [] \<and> no_speech_detected result \<noteq> Some True \<and> jst_hour env < 9"
      "QuotaRetryAfterNine \<in> set (logs_of n1) \<longleftrightarrow>
         ?text = [] \<and> no_speech_detected result \<noteq> Some True \<and> jst_hour env < 9"
      by blast
    from ls obtain n2 where n2: "trace s3 = trace s2 @ n2" "upserts_of n2 = []"
      "published_of n2 = []" "QuotaSuspected \<notin> set (logs_of n2)"
      "QuotaRetryAfterNine \<notin> set (logs_of n2)"
      by blast
    from us obtain n3 where n3: "trace s4 = trace s3 @ n3"
      "upserts_of n3 = replicate (upsert_attempts env) ?data"
      "published_of n3 = []" "QuotaSuspected \<notin> set (logs_of n3)"
      "QuotaRetryAfterNine \<notin> set (logs_of n3)"
      by blast
    from ls have row: "row = local_fields env" by simp
    from us have ok: "u = Inr () \<longleftrightarrow> confirmed env 0 \<or> confirmed env 1 \<or> confirmed env 2"
      by auto
    have iok: "item_ok env \<longleftrightarrow> u = Inr ()"
      using tmp None Inr ok by (simp add: item_ok_def)
    have fr: "scratch s4 = insert p (scratch s) \<and> status_tbl s4 = status_tbl s"
      using qs ls us by simp
    have tr: "trace s4 = trace s @ (n1 @ n2 @ n3)" using n1 n2 n3 by simp
    have ups: "upserts_of (n1 @ n2 @ n3) = item_upserts env audio_file"
      using n1 n2 n3 tmp None Inr row by (simp add: proj_append item_upserts_def)
    have qf: "quota_fires env \<longleftrightarrow>
         ?text = [] \<and> no_speech_detected result \<noteq> Some True \<and> jst_hour env < 9"
      using tmp None Inr by (simp add: quota_fires_def)
    have ex: "\<exists>new. trace s4 = trace s @ new \<and>
        upserts_of new = item_upserts env audio_file \<and> published_of new = [] \<and>
        (QuotaSuspected \<in> set (logs_of new) \<longleftrightarrow> quota_fires env) \<and>
        (QuotaRetryAfterNine \<in> set (logs_of new) \<longleftrightarrow> quota_fires env)"
      using tr ups n1 n2 n3 qf by (intro exI[of _ "n1 @ n2 @ n3"]) (simp add: proj_append)
    have ru: "r = Inr () \<longleftrightarrow> u = Inr ()" using res(2) by (cases u) auto
    have su: "succ' = (if u = Inr () then succ @ [wi_file_path audio_file] else succ)"
      using res(3) by (cases u) auto
    from res(1) fr None ru su iok ex show ?thesis by simp
  qed
qed

lemma item_error_spec:
  assumes "item_error e audio_file (succ, errs, s) = (succ', errs', s')"
  shows "succ' = succ \<and> errs' = errs @ [audio_file] \<and>
     scratch s' = scratch s \<and> status_tbl s' = status_tbl s \<and>
     (\<exists>new. trace s' = trace s @ new \<and> upserts_of new = [] \<and> published_of new = [] \<and>
        QuotaSuspected \<notin> set (logs_of new) \<and> QuotaRetryAfterNine \<notin> set (logs_of new))"
  using assms by (auto simp: item_error_def emit_def split: exn.splits)

lemma process_item_spec:
  assumes run: "process_item env audio_file (succ, errs, s) = (succ', errs', s')"
  shows "scratch s' = scratch s - (case tmp_create env of Inl _ \<Rightarrow> {} | Inr p \<Rightarrow> {p}) \<and>
     status_tbl s' = status_tbl s \<and>
     succ' = (if item_ok env then succ @ [wi_file_path audio_file] else succ) \<and>
     errs' = (if item_ok env then errs else errs @ [audio_file]) \<and>
     (\<exists>new. trace s' = trace s @ new \<and>
        upserts_of new = item_upserts env audio_file \<and> published_of new = [] \<and>
        (QuotaSuspected \<in> set (logs_of new) \<longleftrightarrow> quota_fires env) \<and>
        (QuotaRetryAfterNine \<in> set (logs_of new) \<longleftrightarrow> quota_fires env))"
proof (cases "tmp_create env")
  case (Inl e)
  with run have "item_error e audio_file (succ, errs, s) = (succ', errs', s')"
    by (simp add: process_item_def)
  from item_error_spec[OF this] Inl show ?thesis
    by (simp add: item_ok_def item_upserts_def quota_fires_def)
next
  case (Inr p)
  let ?s1 = "s\<lparr>scratch := insert p (scratch s)\<rparr>"
  obtain r succ1 s2 where b: "pipeline_body env audio_file p succ ?s1 = (r, succ1, s2)"
    by (metis prod_cases3)
  note bs = pipeline_body_spec[OF Inr b]
  let ?s3 = "release_scratch p s2"
  have s3: "scratch ?s3 = scratch s - {p}" "status_tbl ?s3 = status_tbl s"
    "trace ?s3 = trace s2"
    using bs by (auto simp: release_scratch_def)
  from bs obtain n1 where n1: "trace s2 = trace s @ n1"
    "upserts_of n1 = item_upserts env audio_file" "published_of n1 = []"
    "QuotaSuspected \<in> set (logs_of n1) \<longleftrightarrow> quota_fires env"
    "QuotaRetryAfterNine \<in> set (logs_of n1) \<longleftrightarrow> quota_fires env"
    by auto
  show ?thesis
  proof (cases r)
    case (Inr u)
    with run \<open>tmp_create env = Inr p\<close> b have res: "succ' = succ1" "errs' = errs" "s' = ?s3"
      by (simp_all add: process_item_def Let_def)
    from Inr bs have ok: "item_ok env" by simp
    have ex: "\<exists>new. trace s' = trace s @ new \<and>
        upserts_of new = item_upserts env audio_file \<and> published_of new = [] \<and>
        (QuotaSuspected \<in> set (logs_of new) \<longleftrightarrow> quota_fires env) \<and>
        (QuotaRetryAfterNine \<in> set (logs_of new) \<longleftrightarrow> quota_fires env)"
      using n1 res s3 by (intro exI[of _ n1]) simp
    from res s3 ok bs ex \<open>tmp_create env = Inr p\<close> show ?thesis by simp
  next
    case (Inl e)
    with run \<open>tmp_create env = Inr p\<close> b
    have ie: "item_error e audio_file (succ1, errs, ?s3) = (succ', errs', s')"
      by (simp add: process_item_def Let_def)
    note es = item_error_spec[OF ie]
    from Inl bs have nok: "\<not> item_ok env" by auto
    from es obtain n2 where n2: "trace s' = trace ?s3 @ n2" "upserts_of n2 = []"
      "published_of n2 = []" "QuotaSuspected \<notin> set (logs_of n2)"
      "QuotaRetryAfterNine \<notin> set (logs_of n2)"
      by blast
    have ex: "\<exists>new. trace s' = trace s @ new \<and>
        upserts_of new = item_upserts env audio_file \<and> published_of new = [] \<and>
        (QuotaSuspected \<in> set (logs_of new) \<longleftrightarrow> quota_fires env) \<and>
        (QuotaRetryAfterNine \<in> set (logs_of new) \<longleftrightarrow> quota_fires env)"
      using n1 n2 s3 by (intro exI[of _ "n1 @ n2"]) (simp add: proj_append)
    from es s3 nok bs ex \<open>tmp_create env = Inr p\<close> show ?thesis by simp
  qed
qed

lemma item_flags_Suc:
  "item_flags envs i (Suc n) = item_ok (envs i) # item_flags envs (Suc i) n"
  by (simp add: item_flags_def upt_conv_Cons del: upt_Suc)

lemma item_flags_0: "item_flags envs i 0 = []"
  by (simp add: item_flags_def)

lemma process_files_spec:
  "process_files envs i items (succ, errs, s) = (succ', errs', s') \<Longrightarrow>
   succ' = succ @ map (wi_file_path \<circ> fst)
             (filter snd (zip items (item_flags envs i (length items)))) \<and>
   errs' = errs @ map fst
             (filter (\<lambda>x. \<not> snd x) (zip items (item_flags envs i (length items)))) \<and>
   scratch s' \<subseteq> scratch s \<and> status_tbl s' = status_tbl s \<and>
   (\<exists>new. trace s' = trace s @ new \<and> published_of new = [])"
proof (induction items arbitrary: i succ errs s)
  case Nil
  then show ?case by (simp add: item_flags_0)
next
  case (Cons a items)
  obtain succ1 errs1 s1 where one: "process_item (envs i) a (succ, errs, s) = (succ1, errs1, s1)"
    by (metis prod_cases3)
  with Cons.prems have rest: "process_files envs (Suc i) items (succ1, errs1, s1) = (succ', errs', s')"
    by simp
  note ih = Cons.IH[OF rest] and ps = process_item_spec[OF one]
  from ps obtain n1 where n1: "trace s1 = trace s @ n1" "published_of n1 = []" by blast
  from ih obtain n2 where n2: "trace s' = trace s1 @ n2" "published_of n2 = []" by blast
  have ex: "\<exists>new. trace s' = trace s @ new \<and> published_of new = []"
    using n1 n2 by (intro exI[of _ "n1 @ n2"]) (simp add: proj_append)
  have sc: "scratch s' \<subseteq> scratch s" using ih ps by auto
  from ih ps ex sc show ?case
    by (simp add: item_flags_Suc)
qed

section \<open>Scratch storage\<close>

text \<open>
  Claim C8. Whatever the collaborators answer while an item is processed (the
  creation of the scratch file fails, the download or the recogniser raises, the text is
  empty, the upsert is exhausted, or everything succeeds), the scratch files after the
  item are those before it without the item's own file; and after a whole loop no
  scratch file is left that was not there before.
\<close>

theorem scratch_released:
  "scratch (snd (snd (process_item env audio_file (succ, errs, s)))) =
     scratch s - (case tmp_create env of Inl _ \<Rightarrow> {} | Inr p \<Rightarrow> {p}) \<and>
   scratch (snd (snd (process_files envs i items (succ, errs, s)))) \<subseteq> scratch s"
proof -
  obtain a b c where one: "process_item env audio_file (succ, errs, s) = (a, b, c)"
    by (metis prod_cases3)
  obtain a' b' c' where all: "process_files envs i items (succ, errs, s) = (a', b', c')"
    by (metis prod_cases3)
  from process_item_spec[OF one] process_files_spec[OF all] one all show ?thesis by simp
qed

section \<open>The stored transcript\<close>

text \<open>
  Claim C6, as amended. When the recogniser returns a text for an item, every record
  sent for that item carries the text with leading and trailing white space removed,
  or the sentinel when nothing is left of it; a processed item has such a record; an
  empty text stays empty under stripping, so it is stored as the sentinel, whatever
  \<^verbatim>\<open>no_speech_detected\<close> says; and the sentinel is not the empty string (the field is
  always set: it is not optional in \<open>spot_record\<close>).
\<close>

theorem stored_transcript:
  assumes "asr_transcribe env = Inr result"
    and "process_item env audio_file (succ, errs, s) = (succ', errs', s')"
  shows "(\<forall>d \<in> set (upserts_of (new_trace s s')).
            vibe_transcriber_result d =
              (if strip (transcription result) = [] then no_speech_sentinel
               else strip (transcription result))) \<and>
         (item_ok env \<longrightarrow> upserts_of (new_trace s s') \<noteq> []) \<and>
         strip [] = [] \<and> no_speech_sentinel \<noteq> []"
proof -
  from process_item_spec[OF assms(2)] obtain new where
    "trace s' = trace s @ new" and u: "upserts_of new = item_upserts env audio_file"
    by blast
  then have nt: "new_trace s s' = new" by (simp add: new_trace_append)
  have a: "1 \<le> upsert_attempts env" by (simp add: upsert_attempts_def)
  show ?thesis
    using assms(1) nt u a
    by (auto simp: item_upserts_def final_transcription_def item_ok_def strip_def
        no_speech_sentinel_def split: sum.splits option.splits)
qed

text \<open>An empty text with \<^verbatim>\<open>no_speech_detected = False\<close> is stored as the sentinel.\<close>

theorem stored_transcript_witness:
  "map vibe_transcriber_result (upserts_of (new_trace init_state (snd (snd
      (process_item
         (ok_env\<lparr>asr_transcribe :=
            Inr \<lparr>transcription = [], no_speech_detected = Some False\<rparr>\<rparr>)
         item_x ([], [], init_state))))))
   = [no_speech_sentinel]"
proof -
  let ?res = "\<lparr>transcription = [], no_speech_detected = Some False\<rparr>"
  let ?env = "ok_env\<lparr>asr_transcribe := Inr ?res\<rparr>"
  obtain a b c where run: "process_item ?env item_x ([], [], init_state) = (a, b, c)"
    by (metis prod_cases3)
  have asr: "asr_transcribe ?env = Inr ?res" by simp
  have ok: "item_ok ?env" by (simp add: item_ok_def ok_env_def confirmed_def)
  note t = stored_transcript[OF asr run]
  from t ok have ne: "upserts_of (new_trace init_state c) \<noteq> []" by blast
  from process_item_spec[OF run] obtain new where
    "trace c = trace init_state @ new" and u: "upserts_of new = item_upserts ?env item_x"
    by blast
  then have nt: "new_trace init_state c = new" by (simp add: new_trace_append)
  have "length (item_upserts ?env item_x) = 1"
    by (simp add: item_upserts_def ok_env_def upsert_attempts_def confirmed_def)
  with nt u obtain d where d: "upserts_of (new_trace init_state c) = [d]"
    by (metis length_0_conv length_Suc_conv One_nat_def)
  with t have "vibe_transcriber_result d = no_speech_sentinel" by (simp add: strip_def)
  with d run show ?thesis by simp
qed

text \<open>
  The recogniser returns the non-empty text \<open>" hi"\<close>; the stored text is \<open>"hi"\<close>, which is
  not the text returned.
\<close>

theorem stored_transcript_counterexample:
  "map vibe_transcriber_result (upserts_of (new_trace init_state (snd (snd
      (process_item
         (ok_env\<lparr>asr_transcribe :=
            Inr \<lparr>transcription = [32, 104, 105], no_speech_detected = Some False\<rparr>\<rparr>)
         item_x ([], [], init_state))))))
   = [[104, 105]] \<and> [104, 105] \<noteq> [32, 104, 105 :: nat]"
proof -
  let ?res = "\<lparr>transcription = [32, 104, 105], no_speech_detected = Some False\<rparr>"
  let ?env = "ok_env\<lparr>asr_transcribe := Inr ?res\<rparr>"
  obtain a b c where run: "process_item ?env item_x ([], [], init_state) = (a, b, c)"
    by (metis prod_cases3)
  from process_item_spec[OF run] obtain new where
    "trace c = trace init_state @ new" and u: "upserts_of new = item_upserts ?env item_x"
    by blast
  then have nt: "new_trace init_state c = new" by (simp add: new_trace_append)
  have "map vibe_transcriber_result (item_upserts ?env item_x) = [[104, 105]]"
    by (simp add: item_upserts_def ok_env_def upsert_attempts_def confirmed_def
        final_transcription_def strip_def py_isspace_def)
  with nt u run show ?thesis by simp
qed

section \<open>The quota check\<close>

lemma hour_irrelevant:
  "item_ok (env\<lparr>jst_hour := h\<rparr>) = item_ok env"
  "item_upserts (env\<lparr>jst_hour := h\<rparr>) audio_file = item_upserts env audio_file"
  "tmp_create (env\<lparr>jst_hour := h\<rparr>) = tmp_create env"
  by (simp_all add: item_ok_def item_upserts_def confirmed_def upsert_attempts_def
      local_fields_def split: sum.splits option.splits)

text \<open>
  Claim C7, as amended. Processing an item at any two hours \<open>h\<close> and \<open>h'\<close> of the Tokyo clock, all
  else equal, gives the same list of processed paths, the same list of failed items,
  the same upsert requests (so the same stored transcript), the same scratch files
  and the same status table: the hour, and with it the quota check, changes the log
  only. The quota warning is logged exactly when the item reaches the recogniser, the
  text is empty once leading and trailing white space is removed,
  \<^verbatim>\<open>no_speech_detected\<close> is false or absent, and the hour is before 9.
\<close>

theorem quota_check_only_logs:
  "fst (process_item (env\<lparr>jst_hour := h\<rparr>) audio_file (succ, errs, s)) =
     fst (process_item (env\<lparr>jst_hour := h'\<rparr>) audio_file (succ, errs, s)) \<and>
   fst (snd (process_item (env\<lparr>jst_hour := h\<rparr>) audio_file (succ, errs, s))) =
     fst (snd (process_item (env\<lparr>jst_hour := h'\<rparr>) audio_file (succ, errs, s))) \<and>
   upserts_of (trace (snd (snd (process_item (env\<lparr>jst_hour := h\<rparr>) audio_file (succ, errs, s))))) =
     upserts_of (trace (snd (snd (process_item (env\<lparr>jst_hour := h'\<rparr>) audio_file (succ, errs, s))))) \<and>
   scratch (snd (snd (process_item (env\<lparr>jst_hour := h\<rparr>) audio_file (succ, errs, s)))) =
     scratch (snd (snd (process_item (env\<lparr>jst_hour := h'\<rparr>) audio_file (succ, errs, s)))) \<and>
   status_tbl (snd (snd (process_item (env\<lparr>jst_hour := h\<rparr>) audio_file (succ, errs, s)))) =
     status_tbl (snd (snd (process_item (env\<lparr>jst_hour := h'\<rparr>) audio_file (succ, errs, s)))) \<and>
   (QuotaSuspected \<in> set (logs_of (new_trace s
       (snd (snd (process_item (env\<lparr>jst_hour := h\<rparr>) audio_file (succ, errs, s))))))
     \<longleftrightarrow> quota_fires (env\<lparr>jst_hour := h\<rparr>))"
proof -
  obtain a b c where r1: "process_item (env\<lparr>jst_hour := h\<rparr>) audio_file (succ, errs, s) = (a, b, c)"
    by (metis prod_cases3)
  obtain a' b' c' where r2: "process_item (env\<lparr>jst_hour := h'\<rparr>) audio_file (succ, errs, s) = (a', b', c')"
    by (metis prod_cases3)
  note p1 = process_item_spec[OF r1] and p2 = process_item_spec[OF r2]
  from p1 obtain n1 where n1: "trace c = trace s @ n1"
    "upserts_of n1 = item_upserts (env\<lparr>jst_hour := h\<rparr>) audio_file"
    "QuotaSuspected \<in> set (logs_of n1) \<longleftrightarrow> quota_fires (env\<lparr>jst_hour := h\<rparr>)"
    by blast
  from p2 obtain n2 where n2: "trace c' = trace s @ n2"
    "upserts_of n2 = item_upserts (env\<lparr>jst_hour := h'\<rparr>) audio_file"
    by blast
  have nt: "new_trace s c = n1" using n1(1) by (rule new_trace_append)
  have u: "upserts_of (trace c) = upserts_of (trace c')"
    using n1 n2 by (simp add: proj_append hour_irrelevant)
  from p1 p2 have o: "a = a'" "b = b'" "scratch c = scratch c'" "status_tbl c = status_tbl c'"
    by (simp_all add: hour_irrelevant)
  from r1 r2 o u nt n1(3) show ?thesis by simp
qed

text \<open>
  The recogniser returns a single space, with \<^verbatim>\<open>no_speech_detected = False\<close>, at 5
  o'clock in Tokyo: the text is not empty, and the quota warning is logged.
\<close>

theorem quota_fires_on_blank_counterexample:
  "transcription \<lparr>transcription = [32], no_speech_detected = Some False\<rparr> \<noteq> [] \<and>
   QuotaSuspected \<in> set (logs_of (new_trace init_state (snd (snd
      (process_item
         (ok_env\<lparr>asr_transcribe :=
            Inr \<lparr>transcription = [32], no_speech_detected = Some False\<rparr>,
            jst_hour := 5\<rparr>)
         item_x ([], [], init_state))))))"
proof -
  let ?res = "\<lparr>transcription = [32], no_speech_detected = Some False\<rparr>"
  let ?env = "ok_env\<lparr>asr_transcribe := Inr ?res, jst_hour := 5\<rparr>"
  obtain a b c where run: "process_item ?env item_x ([], [], init_state) = (a, b, c)"
    by (metis prod_cases3)
  from process_item_spec[OF run] obtain new where
    tr: "trace c = trace init_state @ new" and
    q: "QuotaSuspected \<in> set (logs_of new) \<longleftrightarrow> quota_fires ?env"
    by blast
  have nt: "new_trace init_state c = new" using tr by (rule new_trace_append)
  have "quota_fires ?env"
    by (simp add: quota_fires_def ok_env_def strip_def py_isspace_def)
  with q nt run show ?thesis by simp
qed

section \<open>The batch\<close>

lemma resolve_paths_spec:
  "resolve_paths w i paths (items, s) = (items', s') \<Longrightarrow>
   scratch s' = scratch s \<and> status_tbl s' = status_tbl s \<and>
   (\<exists>new. trace s' = trace s @ new \<and> upserts_of new = [] \<and> published_of new = [])"
proof (induction paths arbitrary: i items s)
  case Nil
  then show ?case by simp
next
  case (Cons p paths)
  let ?step = "case catalog_lookup w i p of
          Inl e \<Rightarrow> (items, emit (Logged (LookupError p)) s)
        | Inr None \<Rightarrow> (items, emit (Logged (RecordNotFound p)) s)
        | Inr (Some (device_id, recorded_at)) \<Rightarrow>
            (items @ [\<lparr>wi_file_path = p, wi_device_id = device_id,
                       wi_recorded_at = recorded_at\<rparr>], s)"
  obtain items1 s1 where st: "?step = (items1, s1)" by fastforce
  then have one: "scratch s1 = scratch s \<and> status_tbl s1 = status_tbl s \<and>
     (\<exists>new. trace s1 = trace s @ new \<and> upserts_of new = [] \<and> published_of new = [])"
    by (auto simp: emit_def split: sum.splits option.splits)
  from Cons.prems st have "resolve_paths w (Suc i) paths (items1, s1) = (items', s')"
    by simp
  note ih = Cons.IH[OF this]
  from one obtain n1 where n1: "trace s1 = trace s @ n1" "upserts_of n1 = []"
    "published_of n1 = []" by blast
  from ih obtain n2 where n2: "trace s' = trace s1 @ n2" "upserts_of n2 = []"
    "published_of n2 = []" by blast
  have "\<exists>new. trace s' = trace s @ new \<and> upserts_of new = [] \<and> published_of new = []"
    using n1 n2 by (intro exI[of _ "n1 @ n2"]) (simp add: proj_append)
  with one ih show ?case by simp
qed

lemma run_batch_spec:
  assumes run: "run_batch w request file_paths audio_files s = (r, s')"
    and ne: "file_paths \<noteq> []"
  shows "r = Inr (build_result request file_paths
            (map (wi_file_path \<circ> fst)
               (filter snd (zip (fst (resolve_items w file_paths audio_files s))
                  (item_flags (item_envs w) 0
                     (length (fst (resolve_items w file_paths audio_files s)))))))
            (map fst
               (filter (\<lambda>x. \<not> snd x) (zip (fst (resolve_items w file_paths audio_files s))
                  (item_flags (item_envs w) 0
                     (length (fst (resolve_items w file_paths audio_files s)))))))) \<and>
     scratch s' \<subseteq> scratch s \<and> status_tbl s' = status_tbl s \<and>
     (\<exists>new. trace s' = trace s @ new \<and> published_of new = [])"
proof -
  obtain items s1 where rs: "resolve_items w file_paths audio_files s = (items, s1)"
    by fastforce
  have r1: "scratch s1 = scratch s \<and> status_tbl s1 = status_tbl s \<and>
     (\<exists>new. trace s1 = trace s @ new \<and> published_of new = [])"
  proof (cases "truthy audio_files")
    case True
    with rs have "s1 = s" by (simp add: resolve_items_def)
    then show ?thesis by simp
  next
    case False
    with rs have "resolve_paths w 0 file_paths ([], s) = (items, s1)"
      by (simp add: resolve_items_def)
    from resolve_paths_spec[OF this] show ?thesis by blast
  qed
  obtain succ errs s2 where pf:
    "process_files (item_envs w) 0 items ([], [], s1) = (succ, errs, s2)"
    by (metis prod_cases3)
  note ps = process_files_spec[OF pf]
  from run ne rs pf have res: "r = Inr (build_result request file_paths succ errs)" "s' = s2"
    by (simp_all add: run_batch_def)
  from r1 obtain n1 where n1: "trace s1 = trace s @ n1" "published_of n1 = []" by blast
  from ps obtain n2 where n2: "trace s2 = trace s1 @ n2" "published_of n2 = []" by blast
  have ex: "\<exists>new. trace s' = trace s @ new \<and> published_of new = []"
    using n1 n2 res by (intro exI[of _ "n1 @ n2"]) (simp add: proj_append)
  from res ps r1 rs ex show ?thesis by auto
qed

lemma build_result_fields:
  "br_status (build_result request file_paths succ errs) = ''success'' \<and>
   br_pending_processed (build_result request file_paths succ errs) = length succ \<and>
   br_errors (build_result request file_paths succ errs) = length errs \<and>
   py_value (br_processed_files (build_result request file_paths succ errs)) = succ \<and>
   py_value (br_error_files (build_result request file_paths succ errs)) =
     map wi_file_path errs"
  by (simp add: build_result_def py_value_def)

lemma fetch_and_transcribe_files_spec:
  assumes run: "fetch_and_transcribe_files w request s = (r, s')"
  shows "scratch s' \<subseteq> scratch s \<and> status_tbl s' = status_tbl s \<and>
     (\<exists>new. trace s' = trace s @ new \<and> published_of new = []) \<and>
     (case r of
        Inl e \<Rightarrow>
          (if truthy (req_device_id request) \<and> truthy (req_local_date request)
           then e = HTTPException 500 else e = HTTPException 400) \<and>
          (req_model request = ''azure'' \<or> req_model request = ''groq'' \<longrightarrow>
             \<not> batch_accepted w request)
      | Inr result \<Rightarrow>
          (req_model request = ''azure'' \<or> req_model request = ''groq'' \<longrightarrow>
             batch_accepted w request) \<and>
          br_status result = ''success'' \<and>
          br_pending_processed result = length (processed_items w request s) \<and>
          br_errors result = length (errored_items w request s) \<and>
          py_value (br_processed_files result) =
            map wi_file_path (processed_items w request s) \<and>
          py_value (br_error_files result) =
            map wi_file_path (errored_items w request s))"
proof (cases "truthy (req_device_id request) \<and> truthy (req_local_date request)")
  case dev: True
  let ?q = "catalog_query w (py_value (req_device_id request))
                (py_value (req_local_date request))
                (if truthy (req_time_blocks request) then req_time_blocks request else None)"
  show ?thesis
  proof (cases ?q)
    case (Inl e)
    with run dev have "r = Inl (HTTPException 500)" "s' = emit (Logged QueryError) s"
      by (simp_all add: fetch_and_transcribe_files_def)
    with dev Inl show ?thesis
      by (auto simp: emit_def batch_accepted_def)
  next
    case (Inr audio_files)
    show ?thesis
    proof (cases "audio_files = []")
      case True
      with run dev Inr have "r = Inr (empty_device_result request)" "s' = s"
        by (simp_all add: fetch_and_transcribe_files_def)
      with dev Inr True show ?thesis
        by (simp add: batch_accepted_def empty_device_result_def processed_items_def
            errored_items_def files_to_process_def py_value_def)
    next
      case False
      with run dev Inr have rb:
        "run_batch w request (map ar_file_path audio_files) (Some audio_files) s = (r, s')"
        by (simp add: fetch_and_transcribe_files_def)
      have ne: "map ar_file_path audio_files \<noteq> []" using False by simp
      have items: "fst (resolve_items w (map ar_file_path audio_files) (Some audio_files) s)
          = files_to_process w request s"
        using dev Inr False
        by (simp add: resolve_items_def files_to_process_def truthy_def py_value_def)
      from run_batch_spec[OF rb ne] dev Inr show ?thesis
        unfolding items
        by (auto simp: build_result_fields batch_accepted_def processed_items_def
            errored_items_def)
    qed
  qed
next
  case nodev: False
  show ?thesis
  proof (cases "truthy (req_file_paths request)")
    case True
    with run nodev have rb:
      "run_batch w request (py_value (req_file_paths request)) None s = (r, s')"
      by (simp add: fetch_and_transcribe_files_def)
    have ne: "py_value (req_file_paths request) \<noteq> []"
      using True by (auto simp: truthy_def py_value_def split: option.splits)
    have items: "fst (resolve_items w (py_value (req_file_paths request)) None s)
          = files_to_process w request s"
    proof -
      have "truthy (None :: audio_row list option) = False" by (simp add: truthy_def)
      with nodev True show ?thesis
        by (auto simp: resolve_items_def files_to_process_def)
    qed
    from run_batch_spec[OF rb ne] nodev True show ?thesis
      unfolding items
      by (auto simp: build_result_fields batch_accepted_def processed_items_def
          errored_items_def)
  next
    case False
    with run nodev have "r = Inl (HTTPException 400)" "s' = s"
      by (simp_all add: fetch_and_transcribe_files_def)
    with nodev False show ?thesis
      by (auto simp: batch_accepted_def)
  qed
qed

lemma item_partition:
  "length (processed_items w request s) + length (errored_items w request s) =
     length (files_to_process w request s) \<and>
   mset (processed_items w request s) + mset (errored_items w request s) =
     mset (files_to_process w request s)"
proof -
  let ?items = "files_to_process w request s"
  let ?zs = "zip ?items (item_flags (item_envs w) 0 (length ?items))"
  have len: "length (item_flags (item_envs w) 0 (length ?items)) = length ?items"
    by (simp add: item_flags_def)
  then have fstz: "map fst ?zs = ?items" by (simp add: map_fst_zip)
  have lz: "length ?zs = length ?items" using len by simp
  have "length (filter snd ?zs) + length (filter (\<lambda>x. \<not> snd x) ?zs) = length ?zs"
    by (rule sum_length_filter_compl)
  then have a: "length (processed_items w request s) + length (errored_items w request s) =
     length ?items"
    using lz by (simp add: processed_items_def errored_items_def)
  have "mset (filter snd ?zs) + mset (filter (\<lambda>x. \<not> snd x) ?zs) = mset ?zs"
    using multiset_partition[of "mset ?zs" snd] by simp
  then have "image_mset fst (mset (filter snd ?zs) + mset (filter (\<lambda>x. \<not> snd x) ?zs))
     = image_mset fst (mset ?zs)" by simp
  then have b: "mset (processed_items w request s) + mset (errored_items w request s) =
     mset ?items"
    using fstz unfolding processed_items_def errored_items_def
    by (metis image_mset_union mset_map)
  from a b show ?thesis by simp
qed

text \<open>
  Claim C4. When the batch operation returns, the paths it reports as processed are
  those of the resolved items whose own collaborators answered well, in order, and the
  paths it reports as errors are those of all other resolved items: whether an item is
  processed depends on the answers given while that item is processed, not on what
  happened to the items before it, so a failed item stops nothing. Each resolved item
  is in exactly one of the two lists, and the two counts of the summary add up to the
  number of resolved items.
\<close>

theorem batch_accounting:
  assumes "fetch_and_transcribe_files w request s = (Inr result, s')"
  shows "py_value (br_processed_files result) = map wi_file_path (processed_items w request s) \<and>
     py_value (br_error_files result) = map wi_file_path (errored_items w request s) \<and>
     br_pending_processed result = length (processed_items w request s) \<and>
     br_errors result = length (errored_items w request s) \<and>
     mset (processed_items w request s) + mset (errored_items w request s) =
       mset (files_to_process w request s) \<and>
     br_pending_processed result + br_errors result = length (files_to_process w request s)"
  using fetch_and_transcribe_files_spec[OF assms] item_partition[of w request s]
  by simp

text \<open>
  Two paths; the recogniser raises for the first. The second is still processed, the
  first is reported as an error, and the counts add up to two.
\<close>

theorem batch_accounting_witness:
  "\<exists>result s'.
     fetch_and_transcribe_files
       (ok_world\<lparr>item_envs :=
          (\<lambda>i. if i = 0 then ok_env\<lparr>asr_transcribe := Inl (OtherError 1)\<rparr> else ok_env)\<rparr>)
       request_ab init_state = (Inr result, s') \<and>
     py_value (br_processed_files result) = [''b.wav''] \<and>
     py_value (br_error_files result) = [''a.wav''] \<and>
     br_pending_processed result + br_errors result = 2"
proof -
  let ?w = "ok_world\<lparr>item_envs :=
          (\<lambda>i. if i = 0 then ok_env\<lparr>asr_transcribe := Inl (OtherError 1)\<rparr> else ok_env)\<rparr>"
  obtain r s' where run: "fetch_and_transcribe_files ?w request_ab init_state = (r, s')"
    by fastforce
  have acc: "batch_accepted ?w request_ab"
    by (simp add: batch_accepted_def request_ab_def truthy_def)
  have m: "req_model request_ab = ''groq''" by (simp add: request_ab_def)
  from fetch_and_transcribe_files_spec[OF run] acc m obtain result where r: "r = Inr result"
    by (cases r) auto
  note t = batch_accounting[OF run[unfolded r]]
  have items: "files_to_process ?w request_ab init_state =
     [\<lparr>wi_file_path = ''a.wav'', wi_device_id = ''d2'', wi_recorded_at = ''2024-01-01T00:00:00Z''\<rparr>,
      \<lparr>wi_file_path = ''b.wav'', wi_device_id = ''d2'', wi_recorded_at = ''2024-01-01T00:00:00Z''\<rparr>]"
    by (simp add: files_to_process_def request_ab_def truthy_def py_value_def ok_world_def)
  have flags: "item_flags (item_envs ?w) 0 (Suc (Suc 0)) = [False, True]"
    by (simp add: item_flags_def item_ok_def ok_env_def confirmed_def upt_rec)
  have p: "processed_items ?w request_ab init_state =
     [\<lparr>wi_file_path = ''b.wav'', wi_device_id = ''d2'', wi_recorded_at = ''2024-01-01T00:00:00Z''\<rparr>]"
    unfolding processed_items_def items using flags by simp
  have e: "errored_items ?w request_ab init_state =
     [\<lparr>wi_file_path = ''a.wav'', wi_device_id = ''d2'', wi_recorded_at = ''2024-01-01T00:00:00Z''\<rparr>]"
    unfolding errored_items_def items using flags by simp
  from t p e items run r show ?thesis by simp
qed

lemma fetch_and_transcribe_spec:
  assumes run: "fetch_and_transcribe w request s = (r, s')"
  shows "case r of
        Inl e \<Rightarrow> \<not> batch_accepted w request \<and> (e = HTTPException 400 \<or> e = HTTPException 500)
      | Inr result \<Rightarrow>
          batch_accepted w request \<and>
          br_status result = ''success'' \<and>
          br_pending_processed result = length (processed_items w request s) \<and>
          br_errors result = length (errored_items w request s) \<and>
          py_value (br_error_files result) = map wi_file_path (errored_items w request s)"
proof (cases "req_model request \<noteq> ''azure'' \<and> req_model request \<noteq> ''groq''")
  case True
  with run have "r = Inl (HTTPException 400)" by (simp add: fetch_and_transcribe_def)
  with True show ?thesis by (simp add: batch_accepted_def)
next
  case False
  then have m: "req_model request = ''azure'' \<or> req_model request = ''groq''" by simp
  obtain r0 s0 where f: "fetch_and_transcribe_files w request s = (r0, s0)" by fastforce
  note fs = fetch_and_transcribe_files_spec[OF f]
  show ?thesis
  proof (cases r0)
    case (Inr result)
    with run False f have "r = Inr result" by (simp add: fetch_and_transcribe_def)
    with fs Inr m show ?thesis by simp
  next
    case (Inl e)
    with fs obtain c where c: "e = HTTPException c" "c = 400 \<or> c = 500"
      by (auto split: if_splits)
    with run False f Inl have "r = Inl (HTTPException c)"
      by (simp add: fetch_and_transcribe_def)
    with fs Inl m c show ?thesis by auto
  qed
qed

lemma batch_accepted_envs [simp]:
  "batch_accepted (w\<lparr>item_envs := envs\<rparr>) request = batch_accepted w request"
  by (simp add: batch_accepted_def)

text \<open>
  Claim C9. The route answers with status 200 exactly when the request is accepted
  (a supported model, and either device and date with a catalogue query that returns,
  or a non-empty list of paths), whatever the collaborators answer while the items are
  processed. An accepted request gets the top-level status \<open>success\<close>; the items that
  failed show in the count \<open>errors\<close> and in the list of error files only.
\<close>

theorem batch_status_success:
  "(http_status (fst (fetch_and_transcribe (w\<lparr>item_envs := envs\<rparr>) request s)) = 200
      \<longleftrightarrow> batch_accepted w request) \<and>
   (batch_accepted w request \<longrightarrow>
      (\<exists>result. fst (fetch_and_transcribe (w\<lparr>item_envs := envs\<rparr>) request s) = Inr result \<and>
         br_status result = ''success'' \<and>
         br_errors result = length (errored_items (w\<lparr>item_envs := envs\<rparr>) request s) \<and>
         py_value (br_error_files result) =
           map wi_file_path (errored_items (w\<lparr>item_envs := envs\<rparr>) request s)))"
proof -
  obtain r s' where run: "fetch_and_transcribe (w\<lparr>item_envs := envs\<rparr>) request s = (r, s')"
    by fastforce
  from fetch_and_transcribe_spec[OF run] run show ?thesis
    by (cases r) (auto simp: http_status_def)
qed

text \<open>Two paths, both downloads fail: status 200, \<open>success\<close>, two errors.\<close>

theorem batch_status_success_witness:
  "http_status (fst (fetch_and_transcribe
      (ok_world\<lparr>item_envs := (\<lambda>i. ok_env\<lparr>s3_download := Some ClientError\<rparr>)\<rparr>)
      request_ab init_state)) = 200 \<and>
   (\<exists>result. fst (fetch_and_transcribe
      (ok_world\<lparr>item_envs := (\<lambda>i. ok_env\<lparr>s3_download := Some ClientError\<rparr>)\<rparr>)
      request_ab init_state) = Inr result \<and>
      br_status result = ''success'' \<and> br_errors result = 2)"
proof -
  let ?envs = "\<lambda>i::nat. ok_env\<lparr>s3_download := Some ClientError\<rparr>"
  let ?w = "ok_world\<lparr>item_envs := ?envs\<rparr>"
  have acc: "batch_accepted ok_world request_ab"
    by (simp add: batch_accepted_def request_ab_def truthy_def)
  have items: "files_to_process ?w request_ab init_state =
     [\<lparr>wi_file_path = ''a.wav'', wi_device_id = ''d2'', wi_recorded_at = ''2024-01-01T00:00:00Z''\<rparr>,
      \<lparr>wi_file_path = ''b.wav'', wi_device_id = ''d2'', wi_recorded_at = ''2024-01-01T00:00:00Z''\<rparr>]"
    by (simp add: files_to_process_def request_ab_def truthy_def py_value_def ok_world_def)
  have flags: "item_flags (item_envs ?w) 0 (Suc (Suc 0)) = [False, False]"
    by (simp add: item_flags_def item_ok_def upt_rec)
  have e: "length (errored_items ?w request_ab init_state) = 2"
    unfolding errored_items_def items using flags by simp
  from batch_status_success[where w=ok_world and envs="?envs" and request=request_ab and s=init_state] acc e
  show ?thesis by auto
qed

section \<open>The asynchronous endpoint: acknowledgement and terminal event\<close>

lemma update_status_spec:
  assumes "update_status w d r f v s = (u, s')"
  shows "(u = Inr () \<longleftrightarrow> status_write_ok w d r f v) \<and>
     s' = (if status_write_ok w d r f v then set_status d r f v s
           else emit (Logged StatusUpdateFailed) s)"
  using assms
  by (auto simp: update_status_def status_write_ok_def split: sum.splits option.splits if_splits)

lemma update_status_trace:
  assumes "update_status w d r f v s = (u, s')"
  shows "scratch s' = scratch s \<and>
     (\<exists>new. trace s' = trace s @ new \<and> upserts_of new = [] \<and> published_of new = [] \<and>
        logs_of new = (if status_write_ok w d r f v then [] else [StatusUpdateFailed]))"
  using update_status_spec[OF assms]
  by (auto simp: set_status_def emit_def)

lemma sqs_send_spec:
  assumes "sqs_send w ev s = (u, s')"
  shows "(u = Inr () \<longleftrightarrow> sqs_send_resp w ev = None) \<and>
     scratch s' = scratch s \<and> status_tbl s' = status_tbl s \<and>
     (\<exists>new. trace s' = trace s @ new \<and> upserts_of new = [] \<and>
        published_of new = (if sqs_send_resp w ev = None then [ev] else []))"
  using assms by (auto simp: sqs_send_def emit_def split: option.splits)

lemma background_failed_spec:
  assumes "background_failed w d r e s = (u, s')"
  shows "scratch s' = scratch s \<and>
     status_tbl s' =
       (if status_write_ok w d r ''vibe_status'' ''failed''
        then (status_tbl s)((d, r, ''vibe_status'') \<mapsto> ''failed'') else status_tbl s) \<and>
     (\<exists>new. trace s' = trace s @ new \<and> upserts_of new = [] \<and>
        published_of new = (if sqs_send_resp w (failed_event d r e) = None
                            then [failed_event d r e] else []))"
proof -
  let ?s0 = "emit (Logged BackgroundFailed) s"
  obtain u1 s1 where us: "update_status w d r ''vibe_status'' ''failed'' ?s0 = (u1, s1)"
    by fastforce
  with assms have sq: "sqs_send w (failed_event d r e) s1 = (u, s')"
    by (simp add: background_failed_def)
  note a = update_status_spec[OF us] and b = update_status_trace[OF us]
    and c = sqs_send_spec[OF sq]
  from b obtain n1 where n1: "trace s1 = trace ?s0 @ n1" "upserts_of n1 = []"
    "published_of n1 = []" by blast
  from c obtain n2 where n2: "trace s' = trace s1 @ n2" "upserts_of n2 = []"
    "published_of n2 = (if sqs_send_resp w (failed_event d r e) = None
                            then [failed_event d r e] else [])" by blast
  have tr: "trace s' = trace s @ ([Logged BackgroundFailed] @ n1 @ n2)"
    using n1 n2 by (simp add: emit_def)
  have ex: "\<exists>new. trace s' = trace s @ new \<and> upserts_of new = [] \<and>
        published_of new = (if sqs_send_resp w (failed_event d r e) = None
                            then [failed_event d r e] else [])"
    using tr n1 n2 by (intro exI[of _ "[Logged BackgroundFailed] @ n1 @ n2"])
      (simp add: proj_append)
  have st: "status_tbl s' =
       (if status_write_ok w d r ''vibe_status'' ''failed''
        then (status_tbl s)((d, r, ''vibe_status'') \<mapsto> ''failed'') else status_tbl s)"
    using a c by (simp add: set_status_def emit_def)
  have sc: "scratch s' = scratch s" using b c by (simp add: emit_def)
  from sc st ex show ?thesis by simp
qed

lemma single_request_returns:
  assumes "fetch_and_transcribe_files w (single_request fp) s = (r, s1)"
  shows "\<exists>result. r = Inr result \<and>
     py_value (br_processed_files result) =
       map wi_file_path (processed_items w (single_request fp) s)"
proof -
  have acc: "batch_accepted w (single_request fp)"
    by (simp add: batch_accepted_def single_request_def truthy_def)
  have m: "req_model (single_request fp) = ''groq''" by (simp add: single_request_def)
  from fetch_and_transcribe_files_spec[OF assms] acc m show ?thesis
    by (cases r) auto
qed

text \<open>The terminal event of an item, when the channel accepts it.\<close>

lemma process_in_background_spec:
  assumes run: "process_in_background w fp d r s = (u, s')"
    and fetch: "fetch_and_transcribe_files w (single_request fp) s = (Inr result, s1)"
  shows "upserts_of (trace s') = upserts_of (trace s1) \<and>
     (\<exists>new. trace s' = trace s @ new \<and> length (published_of new) \<le> 1 \<and>
        ((\<forall>ev. sqs_send_resp w ev = None) \<longrightarrow>
           published_of new =
             [if status_write_ok w d r ''vibe_status'' ''completed''
              then completed_event d r (py_value (br_processed_files result))
              else failed_event d r
                (case status_update_resp w d r ''vibe_status'' ''completed'' of
                   Inl e \<Rightarrow> e
                 | Inr _ \<Rightarrow> (case status_insert_resp w d r ''vibe_status'' ''completed'' of
                               Some e \<Rightarrow> e | None \<Rightarrow> OtherError 0))])) \<and>
     ((\<forall>ev. sqs_send_resp w ev = None) \<longrightarrow>
        status_write_ok w d r ''vibe_status'' ''completed'' \<longrightarrow>
        status_tbl s' (d, r, ''vibe_status'') = Some ''completed'')"
proof -
  from fetch_and_transcribe_files_spec[OF fetch] obtain n0 where
    n0: "trace s1 = trace s @ n0" "published_of n0 = []" by blast
  obtain u1 s2 where us: "update_status w d r ''vibe_status'' ''completed'' s1 = (u1, s2)"
    by fastforce
  note a = update_status_spec[OF us] and b = update_status_trace[OF us]
  from b obtain n1 where n1: "trace s2 = trace s1 @ n1" "upserts_of n1 = []"
    "published_of n1 = []" by blast
  show ?thesis
  proof (cases u1)
    case (Inl e)
    with a have nok: "\<not> status_write_ok w d r ''vibe_status'' ''completed''" by auto
    from Inl us have e: "e = (case status_update_resp w d r ''vibe_status'' ''completed'' of
                   Inl e \<Rightarrow> e
                 | Inr _ \<Rightarrow> (case status_insert_resp w d r ''vibe_status'' ''completed'' of
                               Some e \<Rightarrow> e | None \<Rightarrow> OtherError 0))"
      by (auto simp: update_status_def split: sum.splits option.splits if_splits)
    from run fetch us Inl have bf: "background_failed w d r e s2 = (u, s')"
      by (simp add: process_in_background_def)
    from background_failed_spec[OF bf] obtain n2 where n2: "trace s' = trace s2 @ n2"
      "upserts_of n2 = []"
      "published_of n2 = (if sqs_send_resp w (failed_event d r e) = None
                            then [failed_event d r e] else [])" by blast
    have tr: "trace s' = trace s @ (n0 @ n1 @ n2)" using n0 n1 n2 by simp
    have up: "upserts_of (trace s') = upserts_of (trace s1)"
      using n1 n2 by (simp add: proj_append)
    have ex: "\<exists>new. trace s' = trace s @ new \<and> length (published_of new) \<le> 1 \<and>
        ((\<forall>ev. sqs_send_resp w ev = None) \<longrightarrow>
           published_of new = [failed_event d r e])"
      using tr n0 n1 n2 by (intro exI[of _ "n0 @ n1 @ n2"]) (simp add: proj_append)
    from up ex nok e show ?thesis by auto
  next
    case (Inr x)
    with a have ok: "status_write_ok w d r ''vibe_status'' ''completed''" by auto
    with a have s2: "s2 = set_status d r ''vibe_status'' ''completed'' s1" by simp
    let ?ev = "completed_event d r (py_value (br_processed_files result))"
    obtain u2 s3 where sq: "sqs_send w ?ev s2 = (u2, s3)" by fastforce
    note c = sqs_send_spec[OF sq]
    from c obtain n2 where n2: "trace s3 = trace s2 @ n2" "upserts_of n2 = []"
      "published_of n2 = (if sqs_send_resp w ?ev = None then [?ev] else [])" by blast
    show ?thesis
    proof (cases u2)
      case (Inr y)
      with run fetch us \<open>u1 = Inr x\<close> sq have res: "s' = s3"
        by (simp add: process_in_background_def)
      from Inr c have sent: "sqs_send_resp w ?ev = None" by auto
      have tr: "trace s' = trace s @ (n0 @ n1 @ n2)" using n0 n1 n2 res by simp
      have up: "upserts_of (trace s') = upserts_of (trace s1)"
        using n1 n2 res by (simp add: proj_append)
      have ex: "\<exists>new. trace s' = trace s @ new \<and> length (published_of new) \<le> 1 \<and>
        ((\<forall>ev. sqs_send_resp w ev = None) \<longrightarrow> published_of new = [?ev])"
        using tr n0 n1 n2 sent by (intro exI[of _ "n0 @ n1 @ n2"]) (simp add: proj_append)
      have st: "status_tbl s' (d, r, ''vibe_status'') = Some ''completed''"
        using res c s2 by (simp add: set_status_def)
      from up ex ok st show ?thesis by auto
    next
      case (Inl e)
      with run fetch us \<open>u1 = Inr x\<close> sq have bf: "background_failed w d r e s3 = (u, s')"
        by (simp add: process_in_background_def)
      from Inl c have notsent: "sqs_send_resp w ?ev \<noteq> None" by auto
      from background_failed_spec[OF bf] obtain n3 where n3: "trace s' = trace s3 @ n3"
        "upserts_of n3 = []"
        "published_of n3 = (if sqs_send_resp w (failed_event d r e) = None
                            then [failed_event d r e] else [])" by blast
      have tr: "trace s' = trace s @ (n0 @ n1 @ n2 @ n3)" using n0 n1 n2 n3 by simp
      have up: "upserts_of (trace s') = upserts_of (trace s1)"
        using n1 n2 n3 by (simp add: proj_append)
      have ex: "\<exists>new. trace s' = trace s @ new \<and> length (published_of new) \<le> 1 \<and>
        ((\<forall>ev. sqs_send_resp w ev = None) \<longrightarrow> published_of new = [?ev])"
        using tr n0 n1 n2 n3 notsent
        by (intro exI[of _ "n0 @ n1 @ n2 @ n3"]) (auto simp: proj_append)
      from notsent have nall: "\<not> (\<forall>ev. sqs_send_resp w ev = None)" by auto
      from up ex ok nall show ?thesis by auto
    qed
  qed
qed

lemma async_process_spec:
  "async_process w request s =
     (\<lparr>acc_status = ''accepted'', acc_message = ''Processing started in background'',
       acc_device_id = ap_device_id request, acc_recorded_at = ap_recorded_at request\<rparr>,
      [ProcessInBackground (ap_file_path request) (ap_device_id request)
         (ap_recorded_at request)],
      (if status_write_ok w (ap_device_id request) (ap_recorded_at request)
            ''vibe_status'' ''processing''
       then set_status (ap_device_id request) (ap_recorded_at request)
              ''vibe_status'' ''processing'' s
       else emit (Logged AcceptStatusFailed) (emit (Logged StatusUpdateFailed) s)))"
proof -
  obtain u s1 where us: "update_status w (ap_device_id request) (ap_recorded_at request)
                       ''vibe_status'' ''processing'' s = (u, s1)" by fastforce
  from update_status_spec[OF us] us show ?thesis
    by (cases u) (auto simp: async_process_def)
qed

text \<open>
  Claim C10. For all answers of the store, the route returns the acknowledgement
  (\<open>accepted\<close>, the request's device and time) and adds exactly the one background task
  for the request's path, device and time. When the status write fails, the failure
  is logged twice (by \<^verbatim>\<open>update_status\<close> and by the route) and nothing else happens;
  nothing is published by the route itself.
\<close>

theorem accept_always_acknowledged:
  "fst (async_process w request s) =
     \<lparr>acc_status = ''accepted'', acc_message = ''Processing started in background'',
      acc_device_id = ap_device_id request, acc_recorded_at = ap_recorded_at request\<rparr> \<and>
   fst (snd (async_process w request s)) =
     [ProcessInBackground (ap_file_path request) (ap_device_id request)
        (ap_recorded_at request)] \<and>
   logs_of (new_trace s (snd (snd (async_process w request s)))) =
     (if status_write_ok w (ap_device_id request) (ap_recorded_at request)
           ''vibe_status'' ''processing''
      then [] else [StatusUpdateFailed, AcceptStatusFailed]) \<and>
   published_of (new_trace s (snd (snd (async_process w request s)))) = []"
  by (simp add: async_process_spec new_trace_def emit_def set_status_def)

text \<open>The update raises: the request is acknowledged, the task added, the failure logged.\<close>

theorem accept_always_acknowledged_witness:
  "acc_status (fst (async_process
      (ok_world\<lparr>status_update_resp := (\<lambda>d r f v. Inl (OtherError 7))\<rparr>)
      request_x init_state)) = ''accepted'' \<and>
   fst (snd (async_process
      (ok_world\<lparr>status_update_resp := (\<lambda>d r f v. Inl (OtherError 7))\<rparr>)
      request_x init_state)) =
     [ProcessInBackground ''x.wav'' ''d2'' ''2024-01-01T00:00:00Z''] \<and>
   logs_of (new_trace init_state (snd (snd (async_process
      (ok_world\<lparr>status_update_resp := (\<lambda>d r f v. Inl (OtherError 7))\<rparr>)
      request_x init_state)))) = [StatusUpdateFailed, AcceptStatusFailed]"
  using accept_always_acknowledged[of
      "ok_world\<lparr>status_update_resp := (\<lambda>d r f v. Inl (OtherError 7))\<rparr>" request_x init_state]
  by (simp add: status_write_ok_def request_x_def)

lemma accept_and_run_eq:
  "accept_and_run w request s =
     (fst (async_process w request s),
      snd (process_in_background w (ap_file_path request) (ap_device_id request)
             (ap_recorded_at request) (snd (snd (async_process w request s)))))"
  by (simp add: accept_and_run_def async_process_spec split: prod.splits sum.splits)

lemma async_process_trace:
  "scratch (snd (snd (async_process w request s))) = scratch s \<and>
   (\<exists>new. trace (snd (snd (async_process w request s))) = trace s @ new \<and>
      upserts_of new = [] \<and> published_of new = [])"
  by (simp add: async_process_spec emit_def set_status_def)

lemma process_in_background_published:
  assumes run: "process_in_background w fp d r s = (u, s')"
    and fetch: "fetch_and_transcribe_files w (single_request fp) s = (Inr result, s1)"
  shows "\<exists>new. trace s' = trace s @ new \<and>
     (published_of new = [] \<or>
      (\<exists>ev. published_of new = [ev] \<and> ev_device_id ev = d \<and> ev_recorded_at ev = r \<and>
         ev_feature_type ev = ''vibe'' \<and>
         (ev_status ev = ''completed'' \<or> ev_status ev = ''failed''))) \<and>
     (published_of new = [] \<longrightarrow> (\<exists>e. sqs_send_resp w (failed_event d r e) \<noteq> None))"
proof -
  from fetch_and_transcribe_files_spec[OF fetch] obtain n0 where
    n0: "trace s1 = trace s @ n0" "published_of n0 = []" by blast
  obtain u1 s2 where us: "update_status w d r ''vibe_status'' ''completed'' s1 = (u1, s2)"
    by fastforce
  from update_status_trace[OF us] obtain n1 where n1: "trace s2 = trace s1 @ n1"
    "published_of n1 = []" by blast
  have fe: "\<And>e. ev_device_id (failed_event d r e) = d \<and>
      ev_recorded_at (failed_event d r e) = r \<and>
      ev_feature_type (failed_event d r e) = ''vibe'' \<and>
      ev_status (failed_event d r e) = ''failed''"
    by (simp add: failed_event_def)
  have ce: "\<And>fs. ev_device_id (completed_event d r fs) = d \<and>
      ev_recorded_at (completed_event d r fs) = r \<and>
      ev_feature_type (completed_event d r fs) = ''vibe'' \<and>
      ev_status (completed_event d r fs) = ''completed''"
    by (simp add: completed_event_def)
  show ?thesis
  proof (cases u1)
    case (Inl e)
    from run fetch us Inl have bf: "background_failed w d r e s2 = (u, s')"
      by (simp add: process_in_background_def)
    from background_failed_spec[OF bf] obtain n2 where n2: "trace s' = trace s2 @ n2"
      "published_of n2 = (if sqs_send_resp w (failed_event d r e) = None
                            then [failed_event d r e] else [])" by blast
    have tr: "trace s' = trace s @ (n0 @ n1 @ n2)" using n0 n1 n2 by simp
    have pb: "published_of (n0 @ n1 @ n2) = (if sqs_send_resp w (failed_event d r e) = None
                            then [failed_event d r e] else [])"
      using n0 n1 n2 by (simp add: proj_append)
    show ?thesis
    proof (cases "sqs_send_resp w (failed_event d r e) = None")
      case True
      with pb fe[of e] tr show ?thesis by (intro exI[of _ "n0 @ n1 @ n2"]) simp
    next
      case False
      with pb tr show ?thesis by (intro exI[of _ "n0 @ n1 @ n2"]) auto
    qed
  next
    case (Inr x)
    let ?ev = "completed_event d r (py_value (br_processed_files result))"
    obtain u2 s3 where sq: "sqs_send w ?ev s2 = (u2, s3)" by fastforce
    note c = sqs_send_spec[OF sq]
    from c obtain n2 where n2: "trace s3 = trace s2 @ n2"
      "published_of n2 = (if sqs_send_resp w ?ev = None then [?ev] else [])" by blast
    show ?thesis
    proof (cases u2)
      case (Inr y)
      with run fetch us \<open>u1 = Inr x\<close> sq have res: "s' = s3"
        by (simp add: process_in_background_def)
      from Inr c have sent: "sqs_send_resp w ?ev = None" by auto
      have tr: "trace s' = trace s @ (n0 @ n1 @ n2)" using n0 n1 n2 res by simp
      have pb: "published_of (n0 @ n1 @ n2) = [?ev]"
        using n0 n1 n2 sent by (simp add: proj_append)
      from pb ce[of "py_value (br_processed_files result)"] tr show ?thesis
        by (intro exI[of _ "n0 @ n1 @ n2"]) simp
    next
      case (Inl e)
      with run fetch us \<open>u1 = Inr x\<close> sq have bf: "background_failed w d r e s3 = (u, s')"
        by (simp add: process_in_background_def)
      from Inl c have notsent: "sqs_send_resp w ?ev \<noteq> None" by auto
      from background_failed_spec[OF bf] obtain n3 where n3: "trace s' = trace s3 @ n3"
        "published_of n3 = (if sqs_send_resp w (failed_event d r e) = None
                            then [failed_event d r e] else [])" by blast
      have tr: "trace s' = trace s @ (n0 @ n1 @ n2 @ n3)" using n0 n1 n2 n3 by simp
      have pb: "published_of (n0 @ n1 @ n2 @ n3) =
          (if sqs_send_resp w (failed_event d r e) = None then [failed_event d r e] else [])"
        using n0 n1 n2 n3 notsent by (simp add: proj_append)
      show ?thesis
      proof (cases "sqs_send_resp w (failed_event d r e) = None")
        case True
        with pb fe[of e] tr show ?thesis by (intro exI[of _ "n0 @ n1 @ n2 @ n3"]) simp
      next
        case False
        with pb tr show ?thesis by (intro exI[of _ "n0 @ n1 @ n2 @ n3"]) auto
      qed
    qed
  qed
qed

text \<open>
  Claim C5, as amended. A request to the asynchronous endpoint, run to the end of its
  background task, never publishes more than one event; and it publishes exactly one,
  for the request's device and time, with status \<open>completed\<close> or \<open>failed\<close>, whenever
  the queue accepts the failure message for the item (so whenever it accepts all that
  is sent to it). This holds for all answers of the storage, the recogniser and the
  store, so whether the pipeline succeeds or fails and whether the status updates
  succeed or fail.
\<close>

theorem exactly_one_terminal_event:
  "length (published_of (new_trace s (snd (accept_and_run w request s)))) \<le> 1 \<and>
   ((\<forall>e. sqs_send_resp w (failed_event (ap_device_id request) (ap_recorded_at request) e)
           = None) \<longrightarrow>
      (\<exists>ev. published_of (new_trace s (snd (accept_and_run w request s))) = [ev] \<and>
         ev_device_id ev = ap_device_id request \<and>
         ev_recorded_at ev = ap_recorded_at request \<and>
         ev_feature_type ev = ''vibe'' \<and>
         (ev_status ev = ''completed'' \<or> ev_status ev = ''failed'')))"
proof -
  let ?s1 = "snd (snd (async_process w request s))"
  let ?fp = "ap_file_path request" and ?d = "ap_device_id request"
    and ?r = "ap_recorded_at request"
  obtain u s' where run: "process_in_background w ?fp ?d ?r ?s1 = (u, s')" by fastforce
  obtain r0 s2 where f: "fetch_and_transcribe_files w (single_request ?fp) ?s1 = (r0, s2)"
    by fastforce
  from single_request_returns[OF f] obtain result where r0: "r0 = Inr result" by blast
  from async_process_trace[of w request s] obtain n0 where
    n0: "trace ?s1 = trace s @ n0" "published_of n0 = []" by blast
  from process_in_background_published[OF run f[unfolded r0]] obtain n1 where
    n1: "trace s' = trace ?s1 @ n1"
    "published_of n1 = [] \<or>
      (\<exists>ev. published_of n1 = [ev] \<and> ev_device_id ev = ?d \<and> ev_recorded_at ev = ?r \<and>
         ev_feature_type ev = ''vibe'' \<and>
         (ev_status ev = ''completed'' \<or> ev_status ev = ''failed''))"
    "published_of n1 = [] \<longrightarrow> (\<exists>e. sqs_send_resp w (failed_event ?d ?r e) \<noteq> None)"
    by blast
  have "trace s' = trace s @ (n0 @ n1)" using n0 n1 by simp
  then have nt: "new_trace s s' = n0 @ n1" by (rule new_trace_append)
  have fin: "snd (accept_and_run w request s) = s'"
    using run by (simp add: accept_and_run_eq)
  have pub: "published_of (new_trace s s') = published_of n1"
    using nt n0 by (simp add: proj_append)
  have a: "length (published_of n1) \<le> 1" using n1(2) by auto
  have b: "(\<forall>e. sqs_send_resp w (failed_event ?d ?r e) = None) \<longrightarrow>
      (\<exists>ev. published_of n1 = [ev] \<and> ev_device_id ev = ?d \<and> ev_recorded_at ev = ?r \<and>
         ev_feature_type ev = ''vibe'' \<and>
         (ev_status ev = ''completed'' \<or> ev_status ev = ''failed''))"
    using n1(2,3) by auto
  from fin pub a b show ?thesis by simp
qed

text \<open>
  The recogniser raises for the item and every status update raises: one event is
  published all the same, the failure that carries the exception of the update.
\<close>

theorem exactly_one_terminal_event_witness:
  "published_of (new_trace init_state (snd (accept_and_run
      (ok_world\<lparr>item_envs := (\<lambda>i. ok_env\<lparr>asr_transcribe := Inl (OtherError 1)\<rparr>),
                status_update_resp := (\<lambda>d r f v. Inl (OtherError 7))\<rparr>)
      request_x init_state))) =
     [failed_event ''d2'' ''2024-01-01T00:00:00Z'' (OtherError 7)]"
proof -
  let ?w = "ok_world\<lparr>item_envs := (\<lambda>i. ok_env\<lparr>asr_transcribe := Inl (OtherError 1)\<rparr>),
                status_update_resp := (\<lambda>d r f v. Inl (OtherError 7))\<rparr>"
  let ?d = "''d2''" and ?r = "''2024-01-01T00:00:00Z''"
  let ?s1 = "snd (snd (async_process ?w request_x init_state))"
  obtain u s' where run: "process_in_background ?w ''x.wav'' ?d ?r ?s1 = (u, s')"
    by fastforce
  obtain r0 s2 where f:
    "fetch_and_transcribe_files ?w (single_request ''x.wav'') ?s1 = (r0, s2)"
    by fastforce
  from single_request_returns[OF f] obtain result where r0: "r0 = Inr result" by blast
  note ps = process_in_background_spec[OF run f[unfolded r0]]
  have ch: "\<forall>ev. sqs_send_resp ?w ev = None" by (simp add: ok_world_def)
  have nok: "\<not> status_write_ok ?w ?d ?r ''vibe_status'' ''completed''"
    by (simp add: status_write_ok_def)
  from ps ch nok obtain n1 where n1: "trace s' = trace ?s1 @ n1"
    "published_of n1 = [failed_event ?d ?r (OtherError 7)]"
    by auto
  from async_process_trace[of ?w request_x init_state] obtain n0 where
    n0: "trace ?s1 = trace init_state @ n0" "published_of n0 = []" by blast
  have "trace s' = trace init_state @ (n0 @ n1)" using n0 n1 by simp
  then have nt: "new_trace init_state s' = n0 @ n1" by (rule new_trace_append)
  have fin: "snd (accept_and_run ?w request_x init_state) = s'"
    using run by (simp add: accept_and_run_eq request_x_def)
  from exactly_one_terminal_event[of init_state ?w request_x] ch
  obtain ev where "published_of (new_trace init_state
      (snd (accept_and_run ?w request_x init_state))) = [ev]" by auto
  with fin nt n0 n1 show ?thesis by (simp add: proj_append)
qed

text \<open>
  The queue rejects every message: the completion is sent and rejected, the failure
  is sent and rejected, and the accepted item has no event.
\<close>

theorem no_terminal_event_counterexample:
  "published_of (new_trace init_state (snd (accept_and_run
      (ok_world\<lparr>sqs_send_resp := (\<lambda>ev. Some (OtherError 9))\<rparr>) request_x init_state))) = []"
proof -
  let ?w = "ok_world\<lparr>sqs_send_resp := (\<lambda>ev. Some (OtherError 9))\<rparr>"
  let ?d = "''d2''" and ?r = "''2024-01-01T00:00:00Z''"
  let ?s1 = "snd (snd (async_process ?w request_x init_state))"
  obtain u s' where run: "process_in_background ?w ''x.wav'' ?d ?r ?s1 = (u, s')"
    by fastforce
  obtain r0 s2 where f:
    "fetch_and_transcribe_files ?w (single_request ''x.wav'') ?s1 = (r0, s2)"
    by fastforce
  from single_request_returns[OF f] obtain result where r0: "r0 = Inr result" by blast
  note f' = f[unfolded r0]
  from fetch_and_transcribe_files_spec[OF f'] obtain m0 where
    m0: "trace s2 = trace ?s1 @ m0" "published_of m0 = []" by blast
  obtain u1 s3 where us: "update_status ?w ?d ?r ''vibe_status'' ''completed'' s2 = (u1, s3)"
    by fastforce
  have ok: "status_write_ok ?w ?d ?r ''vibe_status'' ''completed''"
    by (simp add: status_write_ok_def ok_world_def)
  with update_status_spec[OF us] have u1: "u1 = Inr ()" by simp
  from update_status_trace[OF us] obtain m1 where m1: "trace s3 = trace s2 @ m1"
    "published_of m1 = []" by blast
  let ?ev = "completed_event ?d ?r (py_value (br_processed_files result))"
  have sq: "sqs_send ?w ?ev s3 = (Inl (OtherError 9), s3)" by (simp add: sqs_send_def)
  from run f' us u1 sq have bf: "background_failed ?w ?d ?r (OtherError 9) s3 = (u, s')"
    by (simp add: process_in_background_def)
  from background_failed_spec[OF bf] obtain m2 where m2: "trace s' = trace s3 @ m2"
    "published_of m2 = []" by auto
  from async_process_trace[of ?w request_x init_state] obtain n0 where
    n0: "trace ?s1 = trace init_state @ n0" "published_of n0 = []" by blast
  have "trace s' = trace init_state @ (n0 @ m0 @ m1 @ m2)" using n0 m0 m1 m2 by simp
  then have nt: "new_trace init_state s' = n0 @ m0 @ m1 @ m2" by (rule new_trace_append)
  have fin: "snd (accept_and_run ?w request_x init_state) = s'"
    using run by (simp add: accept_and_run_eq request_x_def)
  from fin nt n0 m0 m1 m2 show ?thesis by (simp add: proj_append)
qed

section \<open>Status updates in the asynchronous flow\<close>

text \<open>
  Claim C2, as amended. A status update that fails raises to its caller
  (\<^verbatim>\<open>update_status\<close> logs the exception and raises it again), and its only effect is
  the log line. No status update, failed or not, adds or changes an upsert request:
  the transcripts sent to the store are those of the pipeline run. And whatever the
  status updates answer, the background task publishes one event when the queue
  accepts what is sent to it.
\<close>

theorem status_update_failure_contained:
  "(\<not> status_write_ok w d r f v \<longrightarrow>
      fst (update_status w d r f v s) \<noteq> Inr () \<and>
      snd (update_status w d r f v s) = emit (Logged StatusUpdateFailed) s) \<and>
   upserts_of (trace (snd (update_status w d r f v s))) = upserts_of (trace s) \<and>
   upserts_of (trace (snd (process_in_background w fp d r s))) =
     upserts_of (trace (snd (fetch_and_transcribe_files w (single_request fp) s))) \<and>
   ((\<forall>ev. sqs_send_resp w ev = None) \<longrightarrow>
      length (published_of (new_trace s (snd (process_in_background w fp d r s)))) = 1)"
proof -
  obtain u s1 where us: "update_status w d r f v s = (u, s1)" by fastforce
  note a = update_status_spec[OF us] and b = update_status_trace[OF us]
  from b obtain n where "trace s1 = trace s @ n" "upserts_of n = []" by blast
  then have up1: "upserts_of (trace s1) = upserts_of (trace s)" by (simp add: proj_append)
  obtain r0 s2 where f: "fetch_and_transcribe_files w (single_request fp) s = (r0, s2)"
    by fastforce
  from single_request_returns[OF f] obtain result where r0: "r0 = Inr result" by blast
  obtain u' s' where run: "process_in_background w fp d r s = (u', s')" by fastforce
  note ps = process_in_background_spec[OF run f[unfolded r0]]
  from ps obtain n1 where n1: "trace s' = trace s @ n1"
    "(\<forall>ev. sqs_send_resp w ev = None) \<longrightarrow>
           published_of n1 =
             [if status_write_ok w d r ''vibe_status'' ''completed''
              then completed_event d r (py_value (br_processed_files result))
              else failed_event d r
                (case status_update_resp w d r ''vibe_status'' ''completed'' of
                   Inl e \<Rightarrow> e
                 | Inr _ \<Rightarrow> (case status_insert_resp w d r ''vibe_status'' ''completed'' of
                               Some e \<Rightarrow> e | None \<Rightarrow> OtherError 0))]"
    by blast
  have nt: "new_trace s s' = n1" using n1(1) by (rule new_trace_append)
  have p1: "\<not> status_write_ok w d r f v \<longrightarrow>
      fst (update_status w d r f v s) \<noteq> Inr () \<and>
      snd (update_status w d r f v s) = emit (Logged StatusUpdateFailed) s"
    using a us by simp
  have p2: "upserts_of (trace (snd (update_status w d r f v s))) = upserts_of (trace s)"
    using up1 us by simp
  have p3: "upserts_of (trace (snd (process_in_background w fp d r s))) =
     upserts_of (trace (snd (fetch_and_transcribe_files w (single_request fp) s)))"
    using ps run f by simp
  have p4: "(\<forall>ev. sqs_send_resp w ev = None) \<longrightarrow>
      length (published_of (new_trace s (snd (process_in_background w fp d r s)))) = 1"
    using n1(2) nt run by auto
  from p1 p2 p3 p4 show ?thesis by blast
qed

text \<open>
  The update to \<open>completed\<close> raises: \<^verbatim>\<open>update_status\<close> logs and changes nothing else,
  and the background task still publishes one event.
\<close>

theorem status_update_failure_contained_witness:
  "length (published_of (new_trace init_state (snd (process_in_background
      (ok_world\<lparr>status_update_resp :=
         (\<lambda>d r f v. if v = ''completed'' then Inl (OtherError 7) else Inr True)\<rparr>)
      ''x.wav'' ''d2'' ''2024-01-01T00:00:00Z'' init_state)))) = 1 \<and>
   snd (update_status
      (ok_world\<lparr>status_update_resp :=
         (\<lambda>d r f v. if v = ''completed'' then Inl (OtherError 7) else Inr True)\<rparr>)
      ''d2'' ''2024-01-01T00:00:00Z'' ''vibe_status'' ''completed'' init_state) =
     emit (Logged StatusUpdateFailed) init_state"
  using status_update_failure_contained[of
      "ok_world\<lparr>status_update_resp :=
         (\<lambda>d r f v. if v = ''completed'' then Inl (OtherError 7) else Inr True)\<rparr>"
      "''d2''" "''2024-01-01T00:00:00Z''" "''vibe_status''" "''completed''" init_state "''x.wav''"]
  by (simp add: status_write_ok_def ok_world_def)

text \<open>
  The same world. \<^verbatim>\<open>update_status\<close> hands the exception to its caller; and for an
  item that was processed, the background task, which does not catch it at the call
  for \<open>completed\<close>, publishes the event \<open>failed\<close>.
\<close>

theorem status_update_escalates_counterexample:
  "fst (update_status
      (ok_world\<lparr>status_update_resp :=
         (\<lambda>d r f v. if v = ''completed'' then Inl (OtherError 7) else Inr True)\<rparr>)
      ''d2'' ''2024-01-01T00:00:00Z'' ''vibe_status'' ''completed'' init_state)
     = Inl (OtherError 7) \<and>
   item_ok (item_envs
      (ok_world\<lparr>status_update_resp :=
         (\<lambda>d r f v. if v = ''completed'' then Inl (OtherError 7) else Inr True)\<rparr>) 0) \<and>
   published_of (new_trace init_state (snd (process_in_background
      (ok_world\<lparr>status_update_resp :=
         (\<lambda>d r f v. if v = ''completed'' then Inl (OtherError 7) else Inr True)\<rparr>)
      ''x.wav'' ''d2'' ''2024-01-01T00:00:00Z'' init_state)))
     = [failed_event ''d2'' ''2024-01-01T00:00:00Z'' (OtherError 7)]"
proof -
  let ?w = "ok_world\<lparr>status_update_resp :=
         (\<lambda>d r f v. if v = ''completed'' then Inl (OtherError 7) else Inr True)\<rparr>"
  let ?d = "''d2''" and ?r = "''2024-01-01T00:00:00Z''"
  have a: "fst (update_status ?w ?d ?r ''vibe_status'' ''completed'' init_state)
     = Inl (OtherError 7)"
    by (simp add: update_status_def)
  have b: "item_ok (item_envs ?w 0)"
    by (simp add: ok_world_def item_ok_def ok_env_def confirmed_def)
  obtain r0 s2 where f: "fetch_and_transcribe_files ?w (single_request ''x.wav'') init_state = (r0, s2)"
    by fastforce
  from single_request_returns[OF f] obtain result where r0: "r0 = Inr result" by blast
  obtain u' s' where run: "process_in_background ?w ''x.wav'' ?d ?r init_state = (u', s')"
    by fastforce
  note ps = process_in_background_spec[OF run f[unfolded r0]]
  have ch: "\<forall>ev. sqs_send_resp ?w ev = None" by (simp add: ok_world_def)
  have nok: "\<not> status_write_ok ?w ?d ?r ''vibe_status'' ''completed''"
    by (simp add: status_write_ok_def)
  from ps ch nok obtain n1 where n1: "trace s' = trace init_state @ n1"
    "published_of n1 = [failed_event ?d ?r (OtherError 7)]"
    by auto
  have nt: "new_trace init_state s' = n1" using n1(1) by (rule new_trace_append)
  from a b nt n1(2) run show ?thesis by simp
qed

section \<open>Scenario D\<close>

text \<open>
  Claim C1 at its own scenario: \<open>x.wav\<close> for device \<open>d2\<close> is accepted, the path
  resolves, and the recogniser raises for the item, so the item is not processed. The
  batch operation catches the item's exception and returns normally, so
  \<^verbatim>\<open>process_in_background\<close> never enters its \<^verbatim>\<open>except\<close> clause: the status is written
  as \<open>completed\<close>, and the one event published has status \<open>completed\<close> and an empty list
  of processed files.
\<close>

theorem scenario_d_reports_completed:
  "\<not> item_ok (item_envs
      (ok_world\<lparr>item_envs := (\<lambda>i. ok_env\<lparr>asr_transcribe := Inl (OtherError 1)\<rparr>)\<rparr>) 0) \<and>
   status_tbl (snd (accept_and_run
      (ok_world\<lparr>item_envs := (\<lambda>i. ok_env\<lparr>asr_transcribe := Inl (OtherError 1)\<rparr>)\<rparr>)
      request_x init_state)) (''d2'', ''2024-01-01T00:00:00Z'', ''vibe_status'')
     = Some ''completed'' \<and>
   published_of (new_trace init_state (snd (accept_and_run
      (ok_world\<lparr>item_envs := (\<lambda>i. ok_env\<lparr>asr_transcribe := Inl (OtherError 1)\<rparr>)\<rparr>)
      request_x init_state)))
     = [completed_event ''d2'' ''2024-01-01T00:00:00Z'' []]"
proof -
  let ?w = "ok_world\<lparr>item_envs := (\<lambda>i. ok_env\<lparr>asr_transcribe := Inl (OtherError 1)\<rparr>)\<rparr>"
  let ?d = "''d2''" and ?r = "''2024-01-01T00:00:00Z''"
  let ?s1 = "snd (snd (async_process ?w request_x init_state))"
  have a: "\<not> item_ok (item_envs ?w 0)" by (simp add: item_ok_def)
  obtain u s' where run: "process_in_background ?w ''x.wav'' ?d ?r ?s1 = (u, s')"
    by fastforce
  obtain r0 s2 where f:
    "fetch_and_transcribe_files ?w (single_request ''x.wav'') ?s1 = (r0, s2)"
    by fastforce
  from single_request_returns[OF f] obtain result where r0: "r0 = Inr result" and
    pf: "py_value (br_processed_files result) =
       map wi_file_path (processed_items ?w (single_request ''x.wav'') ?s1)" by blast
  have items: "processed_items ?w (single_request ''x.wav'') ?s1 = []"
    by (simp add: processed_items_def files_to_process_def single_request_def truthy_def
        py_value_def ok_world_def item_flags_def item_ok_def)
  note ps = process_in_background_spec[OF run f[unfolded r0]]
  have ch: "\<forall>ev. sqs_send_resp ?w ev = None" by (simp add: ok_world_def)
  have ok: "status_write_ok ?w ?d ?r ''vibe_status'' ''completed''"
    by (simp add: status_write_ok_def ok_world_def)
  from ps ch ok pf items obtain n1 where n1: "trace s' = trace ?s1 @ n1"
    "published_of n1 = [completed_event ?d ?r []]"
    by auto
  from ps ch ok have st: "status_tbl s' (?d, ?r, ''vibe_status'') = Some ''completed''"
    by blast
  from async_process_trace[of ?w request_x init_state] obtain n0 where
    n0: "trace ?s1 = trace init_state @ n0" "published_of n0 = []" by blast
  have "trace s' = trace init_state @ (n0 @ n1)" using n0 n1 by simp
  then have nt: "new_trace init_state s' = n0 @ n1" by (rule new_trace_append)
  have fin: "snd (accept_and_run ?w request_x init_state) = s'"
    using run by (simp add: accept_and_run_eq request_x_def)
  from a fin st nt n0 n1 show ?thesis by (simp add: proj_append)
qed

end
